theory Spec2Isabelle
  imports Main "HOL-Library.Word" "HOL-Library.Signed_Division"
begin

section \<open>The kernel monitor of kern/monitor.c\<close>

text \<open>
  A shallow embedding of the command-line kernel monitor: the tokenizer and dispatcher
  of \<open>runcmd\<close>, the command table, the six handlers and the loop of \<open>monitor\<close>.
  Console output is a list of \<open>cprintf\<close> calls (format string and arguments), memory
  is read through 32-bit addresses, and a handler either returns a value with the new
  state, stops in a kernel panic, or never returns.
\<close>

subsection \<open>Console output\<close>

text \<open>
  One argument of a \<open>cprintf\<close> call: a string pointer (\<open>None\<close> is the null pointer),
  a 32-bit word printed by \<open>%x\<close>, an \<open>int\<close> printed by \<open>%d\<close> or consumed by
  \<open>%C\<close>, a character.
\<close>

datatype arg = AStr "string option" | AHex "32 word" | AInt int | AChr char

datatype event = Cprintf string "arg list"

subsection \<open>The command buffer\<close>

text \<open>
  The buffer handed to \<open>runcmd\<close> is a C string: the list holds the bytes before the
  terminator, and a read at the end of the list sees the terminator. The tokenizer
  writes terminators into the buffer, so a read also stops at a zero byte inside it.
\<close>

definition peek :: "char list \<Rightarrow> nat \<Rightarrow> char" where
  "peek b i = (if i < length b then b ! i else CHR 0x00)"

text \<open>The C string that starts at position \<open>i\<close> of the buffer.\<close>

definition cstr :: "char list \<Rightarrow> nat \<Rightarrow> string" where
  "cstr b i = takeWhile (\<lambda>c. c \<noteq> CHR 0x00) (drop i b)"

text \<open>\<open>#define WHITESPACE "\t\r\n "\<close> and \<open>#define MAXARGS 16\<close>.\<close>

definition WHITESPACE :: string where
  "WHITESPACE = [CHR 0x09, CHR 0x0D, CHR 0x0A, CHR 0x20]"

definition MAXARGS :: nat where
  "MAXARGS = 16"

text \<open>
  Modelled from the spec: \<open>strchr\<close> (lib/string.c) is not under src/. It is used
  as a test \<open>strchr(WHITESPACE, c) != NULL\<close>, always behind \<open>*buf != 0\<close>: whether
  the character belongs to the whitespace set.
\<close>

definition strchr :: "string \<Rightarrow> char \<Rightarrow> bool" where
  "strchr s c = (c \<in> set s)"

text \<open>
  Modelled from the spec: \<open>strcmp\<close> (lib/string.c) is not under src/. It is used
  as a test \<open>strcmp(a, b) == 0\<close>: exact, case-sensitive equality of two strings.
\<close>

definition strcmp_eq :: "string \<Rightarrow> string \<Rightarrow> bool" where
  "strcmp_eq a b = (a = b)"

text \<open>\<open>while (*buf && strchr(WHITESPACE, *buf)) *buf++ = 0;\<close>\<close>

function gobble :: "char list \<Rightarrow> nat \<Rightarrow> char list \<times> nat" where
  "gobble b i =
     (if peek b i \<noteq> CHR 0x00 \<and> strchr WHITESPACE (peek b i)
      then gobble (b[i := CHR 0x00]) (Suc i)
      else (b, i))"
  by pat_completeness auto
termination
  by (relation "measure (\<lambda>(b, i). length b - i)") (auto simp: peek_def split: if_splits)

text \<open>\<open>while (*buf && !strchr(WHITESPACE, *buf)) buf++;\<close>\<close>

function scan_arg :: "char list \<Rightarrow> nat \<Rightarrow> nat" where
  "scan_arg b i =
     (if peek b i \<noteq> CHR 0x00 \<and> \<not> strchr WHITESPACE (peek b i)
      then scan_arg b (Suc i)
      else i)"
  by pat_completeness auto
termination
  by (relation "measure (\<lambda>(b, i). length b - i)") (auto simp: peek_def split: if_splits)

declare gobble.simps [simp del]
declare scan_arg.simps [simp del]

lemma gobble_length: "length (fst (gobble b i)) = length b"
  by (induction b i rule: gobble.induct) (subst gobble.simps, simp)

lemma gobble_ge: "i \<le> snd (gobble b i)"
  by (induction b i rule: gobble.induct) (subst gobble.simps, auto)

lemma scan_arg_gt:
  "peek b i \<noteq> CHR 0x00 \<Longrightarrow> \<not> strchr WHITESPACE (peek b i) \<Longrightarrow> i < scan_arg b i"
proof -
  have ge: "j \<le> scan_arg b j" for j
    by (induction b j rule: scan_arg.induct) (subst scan_arg.simps, auto)
  assume "peek b i \<noteq> CHR 0x00" "\<not> strchr WHITESPACE (peek b i)"
  then have "scan_arg b i = scan_arg b (Suc i)"
    by (subst scan_arg.simps) simp
  with ge [of "Suc i"] show ?thesis by simp
qed

text \<open>
  The parsing loop of \<open>runcmd\<close>. \<open>argv\<close> holds the saved pointers (positions in
  the buffer) and \<open>argc\<close> is its length. The loop leaves through \<open>break\<close> with the
  buffer and the pointers, or through the early \<open>return 0\<close> of the argument limit.
\<close>

datatype parse_result = TooMany | Parsed "char list" "nat list"

function parse_args :: "char list \<Rightarrow> nat \<Rightarrow> nat list \<Rightarrow> parse_result" where
  "parse_args b i argv =
     (case gobble b i of (b1, i1) \<Rightarrow>
        if peek b1 i1 = CHR 0x00 then Parsed b1 argv
        else if length argv = MAXARGS - 1 then TooMany
        else parse_args b1 (scan_arg b1 i1) (argv @ [i1]))"
  by pat_completeness auto
termination
proof (relation "measure (\<lambda>(b, i, argv). length b - i)", goal_cases)
  case 1
  show ?case by simp
next
  case (2 b i argv b1 i1)
  then have g: "gobble b i = (b1, i1)" by simp
  from g gobble_length [of b i] have len: "length b1 = length b" by simp
  from g gobble_ge [of i b] have ge: "i \<le> i1" by simp
  from 2 have nz: "peek b1 i1 \<noteq> CHR 0x00" by simp
  then have lt: "i1 < length b1" by (auto simp: peek_def split: if_splits)
  have nws: "\<not> strchr WHITESPACE (peek b1 i1)"
  proof -
    have "peek (fst (gobble b i)) (snd (gobble b i)) = CHR 0x00
          \<or> \<not> strchr WHITESPACE (peek (fst (gobble b i)) (snd (gobble b i)))"
      by (induction b i rule: gobble.induct) (subst (1 2 3 4) gobble.simps, auto)
    with g nz show ?thesis by simp
  qed
  from scan_arg_gt [OF nz nws] have "i1 < scan_arg b1 i1" .
  with ge lt len show ?case by simp
qed

declare parse_args.simps [simp del]

subsection \<open>Kernel state and the machine the monitor runs on\<close>

text \<open>The trap frame is passed through to the handlers and never inspected.\<close>

typedecl Trapframe

text \<open>
  Modelled from the spec: \<open>struct Eipdebuginfo\<close> (kern/kdebug.h) is not under src/.
  A debug info record holds a file name, a source line and a function name that may
  be absent.
\<close>

record Eipdebuginfo =
  eip_file :: "string option"
  eip_line :: int
  eip_fn_name :: "string option"

text \<open>
  Modelled from the spec: \<open>struct PageInfo\<close> (inc/memlayout.h) is not under src/.
  A page descriptor carries an unsigned reference count; its physical address is
  its position in the table of descriptors.
\<close>

record PageInfo =
  pp_ref :: nat

text \<open>
  What the monitor reads and never writes: the frame pointer of \<open>mon_backtrace\<close>
  (the value of \<open>read_ebp()\<close>), the frame pointer in effect at the load of
  \<open>read_eip\<close>, the memory as a function from a byte address to the 32-bit word
  stored there, the linker's symbols, and what is declared outside src/ and has no
  description in the spec: \<open>KERNBASE\<close>, \<open>ROUNDUP\<close>, \<open>COLOR_GRN\<close> and the
  symbolizer \<open>debuginfo_eip\<close>, which takes the address and the record to fill and
  gives its return value and the record as it leaves it.
\<close>

record machine =
  ebp :: "32 word"
  eip_ebp :: "32 word"
  mem :: "32 word \<Rightarrow> 32 word"
  sym_start :: "32 word"
  sym_entry :: "32 word"
  sym_etext :: "32 word"
  sym_edata :: "32 word"
  sym_end :: "32 word"
  KERNBASE :: "32 word"
  ROUNDUP :: "int \<Rightarrow> int \<Rightarrow> int"
  COLOR_GRN :: int
  debuginfo_eip :: "32 word \<Rightarrow> Eipdebuginfo \<Rightarrow> int \<times> Eipdebuginfo"

text \<open>
  What the monitor changes: the console, the table of page descriptors with the
  allocator's free list, and the static \<open>info\<close> record of the backtrace.
\<close>

record kstate =
  console :: "event list"
  pages :: "PageInfo list"
  page_free_list :: "nat list"
  info :: Eipdebuginfo

datatype panic = Panic string

text \<open>
  The outcome of a handler: \<open>None\<close> when it never returns, \<open>Some (Inl e)\<close> when
  the kernel panics, \<open>Some (Inr (r, st))\<close> when it returns \<open>r\<close> in state \<open>st\<close>.
\<close>

type_synonym result = "(panic + int \<times> kstate) option"

definition cprintf :: "string \<Rightarrow> arg list \<Rightarrow> kstate \<Rightarrow> kstate" where
  "cprintf fmt args st = st\<lparr>console := console st @ [Cprintf fmt args]\<rparr>"

subsection \<open>The command table\<close>

datatype handler =
  Mon_help | Mon_kerninfo | Mon_alloc_page | Mon_page_status | Mon_free_page | Mon_backtrace

record Command =
  name :: string
  desc :: string
  func :: handler

definition commands :: "Command list" where
  "commands =
     [\<lparr>name = ''help'', desc = ''Display this list of commands'', func = Mon_help\<rparr>,
      \<lparr>name = ''kerninfo'', desc = ''Display information about the kernel'',
         func = Mon_kerninfo\<rparr>,
      \<lparr>name = ''alloc_page'', desc = ''Display the address of allocated page'',
         func = Mon_alloc_page\<rparr>,
      \<lparr>name = ''page_status'', desc = ''Display the status of the page'',
         func = Mon_page_status\<rparr>,
      \<lparr>name = ''free_page'', desc = ''Free the page, successfully or not'',
         func = Mon_free_page\<rparr>,
      \<lparr>name = ''backtrace'', desc = ''Backtrace the function call'',
         func = Mon_backtrace\<rparr>]"

definition NCOMMANDS :: nat where
  "NCOMMANDS = length commands"

subsection \<open>The physical page allocator, as the monitor calls it\<close>

text \<open>
  Modelled from the spec: \<open>pa2page\<close> (kern/pmap.h) is not under src/. It resolves a
  physical address to the descriptor at the address's page number (pages of 4KB); an
  address beyond the table resolves to no descriptor. The handlers have no branch
  for that case, so an invocation that meets it ends in a panic and does not return.
\<close>

definition pa2page :: "kstate \<Rightarrow> 32 word \<Rightarrow> nat option" where
  "pa2page st pa =
     (if unat (drop_bit 12 pa) < length (pages st) then Some (unat (drop_bit 12 pa))
      else None)"

text \<open>
  Modelled from the spec: \<open>page2pa\<close> (kern/pmap.h) is not under src/. The physical
  address of a descriptor is its table position times the page size.
\<close>

definition page2pa :: "nat \<Rightarrow> 32 word" where
  "page2pa pp = push_bit 12 (word_of_nat pp)"

text \<open>
  Modelled from the spec: \<open>page_alloc\<close> (kern/pmap.c) is not under src/. It hands
  out one free page, or fails when the allocator is exhausted.
\<close>

definition page_alloc :: "kstate \<Rightarrow> (nat \<times> kstate) option" where
  "page_alloc st =
     (case page_free_list st of
        [] \<Rightarrow> None
      | pp # rest \<Rightarrow> Some (pp, st\<lparr>page_free_list := rest\<rparr>))"

text \<open>
  Modelled from the spec: \<open>page_decref\<close> (kern/pmap.c) is not under src/. It
  decrements the reference count of a descriptor and releases the page when the
  count reaches zero; decrementing a count that is already zero is a caller error.
\<close>

definition page_decref :: "nat \<Rightarrow> kstate \<Rightarrow> panic + kstate" where
  "page_decref pp st =
     (if pp_ref (pages st ! pp) = 0 then Inl (Panic ''page_decref: count is zero'')
      else
        let st1 = st\<lparr>pages := (pages st)[pp := (pages st ! pp)\<lparr>pp_ref := pp_ref (pages st ! pp) - 1\<rparr>]\<rparr>
        in if pp_ref (pages st1 ! pp) = 0
           then Inr (st1\<lparr>page_free_list := pp # page_free_list st1\<rparr>)
           else Inr st1)"

text \<open>
  Modelled from the spec: \<open>strtol\<close> (lib/string.c) is not under src/. Generic
  C-style integer literal parsing with base 0: leading blanks and a sign are
  skipped, a leading \<open>0x\<close> selects hexadecimal, a leading \<open>0\<close> octal, anything else
  decimal; digits are read up to the first character that is not a digit of the
  base, and a string with no digits gives zero. The handlers pass a null end pointer.
\<close>

definition digit_of :: "char \<Rightarrow> nat option" where
  "digit_of c =
     (let n = (of_char c :: nat) in
      if 48 \<le> n \<and> n \<le> 57 then Some (n - 48)
      else if 97 \<le> n \<and> n \<le> 122 then Some (n - 97 + 10)
      else if 65 \<le> n \<and> n \<le> 90 then Some (n - 65 + 10)
      else None)"

fun strtol_digits :: "int \<Rightarrow> int \<Rightarrow> string \<Rightarrow> int" where
  "strtol_digits base val [] = val"
| "strtol_digits base val (c # cs) =
     (case digit_of c of
        None \<Rightarrow> val
      | Some d \<Rightarrow> if base \<le> int d then val else strtol_digits base (val * base + int d) cs)"

definition strtol :: "string \<Rightarrow> int \<Rightarrow> int" where
  "strtol s base =
     (let s1 = dropWhile (\<lambda>c. c = CHR '' '' \<or> c = CHR 0x09) s;
          neg = (take 1 s1 = ''-'');
          s2 = (if take 1 s1 = ''+'' \<or> take 1 s1 = ''-'' then drop 1 s1 else s1);
          (b, s3) =
            (if (base = 0 \<or> base = 16) \<and> take 2 s2 = ''0x'' then (16, drop 2 s2)
             else if base = 0 \<and> take 1 s2 = ''0'' then (8, drop 1 s2)
             else if base = 0 then (10, s2)
             else (base, s2));
          val = strtol_digits b 0 s3
      in if neg then - val else val)"

subsection \<open>The handlers\<close>

definition ret :: "int \<Rightarrow> kstate \<Rightarrow> result" where
  "ret r st = Some (Inr (r, st))"

text \<open>\<open>for (i = 0; i < NCOMMANDS; i++) cprintf("%s - %s\n", ...); return 0;\<close>\<close>

definition mon_help ::
  "int \<Rightarrow> string list \<Rightarrow> Trapframe option \<Rightarrow> machine \<Rightarrow> kstate \<Rightarrow> result" where
  "mon_help argc argv tf m st =
     ret 0 (foldl (\<lambda>s i. cprintf ''%s - %s\<newline>''
                      [AStr (Some (name (commands ! i))), AStr (Some (desc (commands ! i)))] s)
              st [0..<NCOMMANDS])"

definition mon_kerninfo ::
  "int \<Rightarrow> string list \<Rightarrow> Trapframe option \<Rightarrow> machine \<Rightarrow> kstate \<Rightarrow> result" where
  "mon_kerninfo argc argv tf m st =
     (let st1 = cprintf ''Special kernel symbols:\<newline>'' [] st;
          st2 = cprintf ''  _start                  %08x (phys)\<newline>'' [AHex (sym_start m)] st1;
          st3 = cprintf ''  entry  %08x (virt)  %08x (phys)\<newline>''
                  [AHex (sym_entry m), AHex (sym_entry m - KERNBASE m)] st2;
          st4 = cprintf ''  etext  %08x (virt)  %08x (phys)\<newline>''
                  [AHex (sym_etext m), AHex (sym_etext m - KERNBASE m)] st3;
          st5 = cprintf ''  edata  %08x (virt)  %08x (phys)\<newline>''
                  [AHex (sym_edata m), AHex (sym_edata m - KERNBASE m)] st4;
          st6 = cprintf ''  end    %08x (virt)  %08x (phys)\<newline>''
                  [AHex (sym_end m), AHex (sym_end m - KERNBASE m)] st5;
          st7 = cprintf ''Kernel executable memory footprint: %dKB\<newline>''
                  [AInt (ROUNDUP m (sint (sym_end m - sym_entry m)) 1024 sdiv 1024)] st6
      in ret 0 st7)"

definition mon_alloc_page ::
  "int \<Rightarrow> string list \<Rightarrow> Trapframe option \<Rightarrow> machine \<Rightarrow> kstate \<Rightarrow> result" where
  "mon_alloc_page argc argv tf m st =
     (case page_alloc st of
        Some (pp, st1) \<Rightarrow>
          let st2 = cprintf ''    0x%x\<newline>'' [AHex (page2pa pp)] st1;
              st3 = st2\<lparr>pages := (pages st2)[pp := (pages st2 ! pp)\<lparr>pp_ref := pp_ref (pages st2 ! pp) + 1\<rparr>]\<rparr>
          in ret 0 st3
      | None \<Rightarrow> ret 0 (cprintf ''    Page allocation failed\<newline>'' [] st))"

definition mon_page_status ::
  "int \<Rightarrow> string list \<Rightarrow> Trapframe option \<Rightarrow> machine \<Rightarrow> kstate \<Rightarrow> result" where
  "mon_page_status argc argv tf m st =
     (if argc \<noteq> 2
      then ret 0 (cprintf ''    Address must be aligned in 4KB\<newline>'' []
                   (cprintf ''Usage: page status [ADDR]\<newline>'' [] st))
      else
        let pa = (word_of_int (strtol (argv ! 1) 0) :: 32 word) in
        case pa2page st pa of
          None \<Rightarrow> Some (Inl (Panic ''pa2page called with invalid pa''))
        | Some pp \<Rightarrow>
            ret 0 (if pp_ref (pages st ! pp) > 0
                   then cprintf ''    Allocated\<newline>'' [] st
                   else cprintf ''    free\<newline>'' [] st))"

definition mon_free_page ::
  "int \<Rightarrow> string list \<Rightarrow> Trapframe option \<Rightarrow> machine \<Rightarrow> kstate \<Rightarrow> result" where
  "mon_free_page argc argv tf m st =
     (if argc \<noteq> 2
      then ret 0
             (cprintf ''    Please make sure that the page is currently mounted 1 time\<newline>'' []
               (cprintf ''   Address must be aligned in 4KB\<newline>'' []
                 (cprintf ''Usage: free page [ADDR]\<newline>'' [] st)))
      else
        let pa = (word_of_int (strtol (argv ! 1) 0) :: 32 word) in
        case pa2page st pa of
          None \<Rightarrow> Some (Inl (Panic ''pa2page called with invalid pa''))
        | Some pp \<Rightarrow>
            if pp_ref (pages st ! pp) = 1
            then (case page_decref pp st of
                    Inl e \<Rightarrow> Some (Inl e)
                  | Inr st1 \<Rightarrow> ret 0 (cprintf ''    Page freed successfully!\<newline>'' [] st1))
            else ret 0 (cprintf ''   failed\<newline>'' [] st))"

subsection \<open>The backtrace\<close>

text \<open>
  \<open>read_ebp()\<close> (inc/x86.h, not under src/) gives the frame pointer register;
  \<open>read_eip\<close> loads the word at \<open>4(%ebp)\<close>.
\<close>

definition read_ebp :: "machine \<Rightarrow> 32 word" where
  "read_ebp m = ebp m"

definition read_eip :: "machine \<Rightarrow> 32 word" where
  "read_eip m = mem m (eip_ebp m + 4)"

text \<open>
  \<open>J_NEXT_EBP(ebp)\<close> reads the word the pointer points to and \<open>J_ARG_N(ebp, n)\<close>
  the word \<open>n\<close> elements further; on a pointer to \<open>unsigned int\<close> one element is
  four bytes.
\<close>

definition J_NEXT_EBP :: "machine \<Rightarrow> 32 word \<Rightarrow> 32 word" where
  "J_NEXT_EBP m p = mem m p"

definition J_ARG_N :: "machine \<Rightarrow> 32 word \<Rightarrow> nat \<Rightarrow> 32 word" where
  "J_ARG_N m p n = mem m (p + 4 * word_of_nat n)"

definition dump_stack :: "machine \<Rightarrow> 32 word \<Rightarrow> kstate \<Rightarrow> 32 word \<times> kstate" where
  "dump_stack m p st =
     (let st1 = cprintf ''ebp %08x eip %08x args'' [AHex p, AHex (J_ARG_N m p 1)] st;
          st2 = foldl (\<lambda>s i. cprintf '' %08x \<newline>'' [AHex (J_ARG_N m p i)] s) st1 [2..<7]
      in (J_NEXT_EBP m p, st2))"

definition dump_backstrace_symbols :: "machine \<Rightarrow> 32 word \<Rightarrow> kstate \<Rightarrow> 32 word \<times> kstate" where
  "dump_backstrace_symbols m p st =
     (let st1 = cprintf ''%s %d\<newline>'' [AStr (eip_fn_name (info st)), AInt (eip_line (info st))] st;
          st2 = st1\<lparr>info := snd (debuginfo_eip m (mem m (p + 4)) (info st1))\<rparr>
      in (J_NEXT_EBP m p, st2))"

text \<open>
  \<open>do { p = dump_stack(p); } while (p);\<close> and the same loop over
  \<open>dump_backstrace_symbols\<close>. Nothing bounds the number of rounds, so the loops
  are partial: \<open>None\<close> is a loop that never ends.
\<close>

partial_function (option) dump_stack_loop :: "machine \<Rightarrow> 32 word \<Rightarrow> kstate \<Rightarrow> kstate option" where
  "dump_stack_loop m p st =
     (case dump_stack m p st of (p1, st1) \<Rightarrow>
        if p1 \<noteq> 0 then dump_stack_loop m p1 st1 else Some st1)"

partial_function (option) symbols_loop :: "machine \<Rightarrow> 32 word \<Rightarrow> kstate \<Rightarrow> kstate option" where
  "symbols_loop m p st =
     (case dump_backstrace_symbols m p st of (p1, st1) \<Rightarrow>
        if p1 \<noteq> 0 then symbols_loop m p1 st1 else Some st1)"

declare dump_stack_loop.simps [code]
declare symbols_loop.simps [code]

definition mon_backtrace ::
  "int \<Rightarrow> string list \<Rightarrow> Trapframe option \<Rightarrow> machine \<Rightarrow> kstate \<Rightarrow> result" where
  "mon_backtrace argc argv tf m st =
     (let p = read_ebp m;
          eip = read_eip m;
          st1 = cprintf ''current eip=%08x'' [AHex eip] st;
          st2 = st1\<lparr>info := snd (debuginfo_eip m eip (info st1))\<rparr>;
          st3 = cprintf ''\<newline>'' [] st2
      in case dump_stack_loop m p st3 of
           None \<Rightarrow> None
         | Some st4 \<Rightarrow>
             (let st5 = cprintf ''\<newline>'' [] st4;
                  p = read_ebp m
              in (case symbols_loop m p st5 of
                    None \<Rightarrow> None
                  | Some st6 \<Rightarrow> ret 0 st6)))"

subsection \<open>The command interpreter\<close>

text \<open>The call through the function pointer of a table entry.\<close>

fun call ::
  "handler \<Rightarrow> int \<Rightarrow> string list \<Rightarrow> Trapframe option \<Rightarrow> machine \<Rightarrow> kstate \<Rightarrow> result" where
  "call Mon_help = mon_help"
| "call Mon_kerninfo = mon_kerninfo"
| "call Mon_alloc_page = mon_alloc_page"
| "call Mon_page_status = mon_page_status"
| "call Mon_free_page = mon_free_page"
| "call Mon_backtrace = mon_backtrace"

text \<open>
  \<open>for (i = 0; i < NCOMMANDS; i++) if (strcmp(argv[0], commands[i].name) == 0)
  return commands[i].func(argc, argv, tf);\<close> followed by the message for an unknown
  command, over the entries that are left to compare.
\<close>

fun lookup ::
  "Command list \<Rightarrow> int \<Rightarrow> string list \<Rightarrow> Trapframe option \<Rightarrow> machine \<Rightarrow> kstate \<Rightarrow> result" where
  "lookup [] argc argv tf m st =
     ret 0 (cprintf (''Unknown command '' @ [CHR 0x27] @ ''%s'' @ [CHR 0x27] @ ''\<newline>'')
              [AStr (Some (argv ! 0))] st)"
| "lookup (c # cs) argc argv tf m st =
     (if strcmp_eq (argv ! 0) (name c) then call (func c) argc argv tf m st
      else lookup cs argc argv tf m st)"

text \<open>The second half of \<open>runcmd\<close>: look the command up and invoke it.\<close>

definition dispatch ::
  "int \<Rightarrow> string list \<Rightarrow> Trapframe option \<Rightarrow> machine \<Rightarrow> kstate \<Rightarrow> result" where
  "dispatch argc argv tf m st =
     (if argc = 0 then ret 0 st else lookup commands argc argv tf m st)"

text \<open>
  The tokens of a parsed buffer: the C strings at the saved pointers, read after the
  parsing loop has written its terminators.
\<close>

definition tokens :: "string \<Rightarrow> string list option" where
  "tokens buf =
     (case parse_args buf 0 [] of
        TooMany \<Rightarrow> None
      | Parsed b argv \<Rightarrow> Some (map (cstr b) argv))"

definition runcmd :: "string \<Rightarrow> Trapframe option \<Rightarrow> machine \<Rightarrow> kstate \<Rightarrow> result" where
  "runcmd buf tf m st =
     (case parse_args buf 0 [] of
        TooMany \<Rightarrow> ret 0 (cprintf ''Too many arguments (max %d)\<newline>'' [AInt (int MAXARGS)] st)
      | Parsed b argv \<Rightarrow> dispatch (int (length argv)) (map (cstr b) argv) tf m st)"

subsection \<open>The monitor loop\<close>

text \<open>
  \<open>while (1) { buf = readline("K> "); if (buf != NULL) if (runcmd(buf, tf) < 0) break; }\<close>
  The loop reads one line in each round, so it is run over the lines that
  \<open>readline\<close> gives in turn (\<open>None\<close> is its null result). It ends in \<open>Reading\<close>
  when the lines are used up and the loop waits in \<open>readline\<close>, in \<open>Left\<close> when
  it was left through \<open>break\<close>, in \<open>Panicked\<close> or \<open>Hung\<close> when a command did
  not return.
\<close>

datatype monitor_result = Reading kstate | Left kstate | Panicked panic | Hung

fun monitor_loop ::
  "string option list \<Rightarrow> Trapframe option \<Rightarrow> machine \<Rightarrow> kstate \<Rightarrow> monitor_result" where
  "monitor_loop [] tf m st = Reading st"
| "monitor_loop (None # ls) tf m st = monitor_loop ls tf m st"
| "monitor_loop (Some buf # ls) tf m st =
     (case runcmd buf tf m st of
        None \<Rightarrow> Hung
      | Some (Inl e) \<Rightarrow> Panicked e
      | Some (Inr (r, st1)) \<Rightarrow> if r < 0 then Left st1 else monitor_loop ls tf m st1)"

definition monitor ::
  "string option list \<Rightarrow> Trapframe option \<Rightarrow> machine \<Rightarrow> kstate \<Rightarrow> monitor_result" where
  "monitor ls tf m st =
     (let st1 = cprintf ''Welcome to %Cc the JOS kernel monitor!\<newline>''
                  [AInt (COLOR_GRN m), AChr CHR ''H''] st;
          st2 = cprintf (''Type '' @ [CHR 0x27] @ ''help'' @ [CHR 0x27] @ '' for a list of commands.\<newline>'')
                  [] st1
      in monitor_loop ls tf m st2)"

section \<open>Notions the properties are stated with\<close>

text \<open>
  A frame-pointer chain of known length: the listed frame pointers are linked through
  their saved frame pointers, every link but the last is non-zero, and the saved frame
  pointer of the last frame is the zero sentinel.
\<close>

fun frame_chain :: "machine \<Rightarrow> 32 word list \<Rightarrow> bool" where
  "frame_chain m [] = False"
| "frame_chain m [p] = (mem m p = 0)"
| "frame_chain m (p # q # ps) = (mem m p = q \<and> q \<noteq> 0 \<and> frame_chain m (q # ps))"

text \<open>The line the symbol pass prints for a debug info record.\<close>

definition symbol_line :: "Eipdebuginfo \<Rightarrow> event" where
  "symbol_line i = Cprintf ''%s %d\<newline>'' [AStr (eip_fn_name i), AInt (eip_line i)]"

text \<open>
  The records in the order the symbol pass prints them over the given frames: the
  record it starts with, then, for each frame after the first, the record the
  symbolizer leaves for the saved return address of the frame before it.
\<close>

fun resolved :: "machine \<Rightarrow> Eipdebuginfo \<Rightarrow> 32 word list \<Rightarrow> Eipdebuginfo list" where
  "resolved m i [] = []"
| "resolved m i (q # qs) = i # resolved m (snd (debuginfo_eip m (mem m (q + 4)) i)) qs"

text \<open>The console of a returned handler, for reading results off.\<close>

definition console_of :: "result \<Rightarrow> event list" where
  "console_of r = (case r of Some (Inr (v, st)) \<Rightarrow> console st | _ \<Rightarrow> [])"

lemma dropWhile_word_shorter:
  assumes "r = dropWhile P s" "r \<noteq> []"
  shows "length (dropWhile (\<lambda>c. \<not> P c) r) < length s"
proof -
  from assms(2) obtain x xs where r: "r = x # xs" by (cases r) simp_all
  with assms(1) have d: "dropWhile P s = x # xs" by simp
  have "\<not> P x" using hd_dropWhile [of P s] by (simp add: d)
  then have "length (dropWhile (\<lambda>c. \<not> P c) r) \<le> length xs"
    by (simp add: r length_dropWhile_le)
  moreover have "length r \<le> length s"
    by (simp add: assms(1) length_dropWhile_le)
  ultimately show ?thesis by (simp add: r)
qed

text \<open>
  The splitting the spec describes, on the line itself: skip a run of whitespace, take
  the longest run of characters that are not whitespace as the next token, and go on
  behind it.
\<close>

function split_ws :: "string \<Rightarrow> string list" where
  "split_ws s =
     (let r = dropWhile (strchr WHITESPACE) s
      in if r = [] then []
         else takeWhile (\<lambda>c. \<not> strchr WHITESPACE c) r
              # split_ws (dropWhile (\<lambda>c. \<not> strchr WHITESPACE c) r))"
  by pat_completeness auto
termination
proof (relation "measure length", goal_cases)
  case 1
  show ?case by simp
next
  case (2 s r)
  from dropWhile_word_shorter [OF 2] show ?case by simp
qed

declare split_ws.simps [simp del]

text \<open>The positions at which the tokens of a string start, counted from \<open>i\<close>.\<close>

function starts :: "nat \<Rightarrow> string \<Rightarrow> nat list" where
  "starts i s =
     (let n = length (takeWhile (strchr WHITESPACE) s);
          r = dropWhile (strchr WHITESPACE) s
      in if r = [] then []
         else (i + n) # starts (i + n + length (takeWhile (\<lambda>c. \<not> strchr WHITESPACE c) r))
                          (dropWhile (\<lambda>c. \<not> strchr WHITESPACE c) r))"
  by pat_completeness auto
termination
proof (relation "measure (\<lambda>(i, s). length s)", goal_cases)
  case 1
  show ?case by simp
next
  case (2 i s n r)
  from dropWhile_word_shorter [OF 2(2,3)] show ?case by simp
qed

declare starts.simps [simp del]

text \<open>What the parsing loop leaves of a character it has passed.\<close>

definition terminated :: "char \<Rightarrow> char" where
  "terminated c = (if strchr WHITESPACE c then CHR 0x00 else c)"

text \<open>
  An argument that is no numeral: it is empty, or its first character is neither a
  blank, a sign nor a decimal digit.
\<close>

definition non_numeric :: "string \<Rightarrow> bool" where
  "non_numeric a =
     (case a of
        [] \<Rightarrow> True
      | x # xs \<Rightarrow>
          x \<noteq> CHR '' '' \<and> x \<noteq> CHR 0x09 \<and> x \<noteq> CHR ''+'' \<and> x \<noteq> CHR ''-''
          \<and> (case digit_of x of None \<Rightarrow> True | Some d \<Rightarrow> 10 \<le> d))"

subsection \<open>Synthetic inputs\<close>

text \<open>A memory given by its non-zero cells.\<close>

definition stack_of :: "(32 word \<times> 32 word) list \<Rightarrow> 32 word \<Rightarrow> 32 word" where
  "stack_of cells a = (case map_of cells a of None \<Rightarrow> 0 | Some v \<Rightarrow> v)"

text \<open>
  A symbolizer that knows two addresses and fails on every other one, leaving the
  placeholder record.
\<close>

definition synthetic_symbolizer :: "32 word \<Rightarrow> Eipdebuginfo \<Rightarrow> int \<times> Eipdebuginfo" where
  "synthetic_symbolizer eip i =
     (if eip = 0x3000
      then (0, \<lparr>eip_file = Some ''kern/monitor.c'', eip_line = 175,
                eip_fn_name = Some ''mon_backtrace''\<rparr>)
      else if eip = 0x4000
      then (0, \<lparr>eip_file = Some ''kern/monitor.c'', eip_line = 235,
                eip_fn_name = Some ''runcmd''\<rparr>)
      else (- 1, \<lparr>eip_file = Some ''<unknown>'', eip_line = 0,
                  eip_fn_name = Some ''<unknown>''\<rparr>))"

definition synthetic_machine :: "32 word \<Rightarrow> (32 word \<times> 32 word) list \<Rightarrow> machine" where
  "synthetic_machine fp cells =
     \<lparr>ebp = fp, eip_ebp = fp - 0x20, mem = stack_of cells,
      sym_start = 0x0010000C, sym_entry = 0xF010000C, sym_etext = 0xF0101A75,
      sym_edata = 0xF0112300, sym_end = 0xF0112960, KERNBASE = 0xF0000000,
      ROUNDUP = (\<lambda>a n. (a + n - 1) div n * n), COLOR_GRN = 2,
      debuginfo_eip = synthetic_symbolizer\<rparr>"

text \<open>Four pages with reference counts 1, 0, 2 and 0; the static record is zeroed.\<close>

definition boot_state :: kstate where
  "boot_state =
     \<lparr>console = [],
      pages = [\<lparr>pp_ref = 1\<rparr>, \<lparr>pp_ref = 0\<rparr>, \<lparr>pp_ref = 2\<rparr>, \<lparr>pp_ref = 0\<rparr>],
      page_free_list = [1, 3],
      info = \<lparr>eip_file = None, eip_line = 0, eip_fn_name = None\<rparr>\<rparr>"

text \<open>
  Two frames, at 0x1000 and 0x2000, with return addresses 0x4000 and 0x5000; the
  word that \<open>read_eip\<close> loads is 0x3000.
\<close>

definition two_frames :: "(32 word \<times> 32 word) list" where
  "two_frames =
     [(0x0FE4, 0x3000), (0x1000, 0x2000), (0x1004, 0x4000), (0x2000, 0), (0x2004, 0x5000)]"

text \<open>A frame whose saved frame pointer is its own address.\<close>

definition self_loop :: "(32 word \<times> 32 word) list" where
  "self_loop = [(0x0FE4, 0x3000), (0x1000, 0x1000), (0x1004, 0x4000)]"

text \<open>Two frames whose saved frame pointers point at each other.\<close>

definition two_cycle :: "(32 word \<times> 32 word) list" where
  "two_cycle = [(0x0FE4, 0x3000), (0x1000, 0x2000), (0x2000, 0x1000)]"

section \<open>The unwinding loops\<close>

lemma fst_dump_stack: "fst (dump_stack m p st) = mem m p"
  by (simp add: dump_stack_def J_NEXT_EBP_def Let_def)

lemma fst_dump_backstrace_symbols: "fst (dump_backstrace_symbols m p st) = mem m p"
  by (simp add: dump_backstrace_symbols_def J_NEXT_EBP_def Let_def)

lemma dump_stack_loop_step:
  "dump_stack_loop m p st =
     (if mem m p \<noteq> 0 then dump_stack_loop m (mem m p) (snd (dump_stack m p st))
      else Some (snd (dump_stack m p st)))"
  by (subst dump_stack_loop.simps) (simp add: case_prod_unfold fst_dump_stack)

lemma symbols_loop_step:
  "symbols_loop m p st =
     (if mem m p \<noteq> 0 then symbols_loop m (mem m p) (snd (dump_backstrace_symbols m p st))
      else Some (snd (dump_backstrace_symbols m p st)))"
  by (subst symbols_loop.simps) (simp add: case_prod_unfold fst_dump_backstrace_symbols)

lemma dump_stack_loop_chain:
  "frame_chain m (p # ps) \<Longrightarrow>
   dump_stack_loop m p st = Some (foldl (\<lambda>s q. snd (dump_stack m q s)) st (p # ps))"
proof (induction ps arbitrary: p st)
  case Nil
  then show ?case by (subst dump_stack_loop_step) simp
next
  case (Cons q qs)
  from Cons.prems have link: "mem m p = q" "q \<noteq> 0" and rest: "frame_chain m (q # qs)"
    by simp_all
  show ?case
    by (subst dump_stack_loop_step) (simp add: link Cons.IH [OF rest])
qed

lemma symbols_loop_chain:
  "frame_chain m (p # ps) \<Longrightarrow>
   symbols_loop m p st = Some (foldl (\<lambda>s q. snd (dump_backstrace_symbols m q s)) st (p # ps))"
proof (induction ps arbitrary: p st)
  case Nil
  then show ?case by (subst symbols_loop_step) simp
next
  case (Cons q qs)
  from Cons.prems have link: "mem m p = q" "q \<noteq> 0" and rest: "frame_chain m (q # qs)"
    by simp_all
  show ?case
    by (subst symbols_loop_step) (simp add: link Cons.IH [OF rest])
qed

text \<open>A loop that returns has met the zero sentinel after finitely many links.\<close>

lemma dump_stack_loop_Some_reaches:
  assumes "dump_stack_loop m p st = Some y"
  shows "\<exists>n. (mem m ^^ Suc n) p = 0"
proof (rule dump_stack_loop.raw_induct
    [where P = "\<lambda>m p st y. \<exists>n. (mem m ^^ Suc n) p = 0", OF _ assms])
  fix loop :: "machine \<Rightarrow> 32 word \<Rightarrow> kstate \<Rightarrow> kstate option" and m p st y
  assume IH: "\<And>m p st y. loop m p st = Some y \<Longrightarrow> \<exists>n. (mem m ^^ Suc n) p = 0"
    and body: "(case dump_stack m p st of (p1, st1) \<Rightarrow>
                  if p1 \<noteq> 0 then loop m p1 st1 else Some st1) = Some y"
  show "\<exists>n. (mem m ^^ Suc n) p = 0"
  proof (cases "mem m p = 0")
    case True
    then have "(mem m ^^ Suc 0) p = 0" by simp
    then show ?thesis by blast
  next
    case False
    with body have "loop m (mem m p) (snd (dump_stack m p st)) = Some y"
      by (simp add: case_prod_unfold fst_dump_stack)
    from IH [OF this] obtain n where "(mem m ^^ Suc n) (mem m p) = 0" by blast
    then have "(mem m ^^ Suc (Suc n)) p = 0" by (simp add: funpow_swap1)
    then show ?thesis by blast
  qed
qed

lemma symbols_loop_Some_reaches:
  assumes "symbols_loop m p st = Some y"
  shows "\<exists>n. (mem m ^^ Suc n) p = 0"
proof (rule symbols_loop.raw_induct
    [where P = "\<lambda>m p st y. \<exists>n. (mem m ^^ Suc n) p = 0", OF _ assms])
  fix loop :: "machine \<Rightarrow> 32 word \<Rightarrow> kstate \<Rightarrow> kstate option" and m p st y
  assume IH: "\<And>m p st y. loop m p st = Some y \<Longrightarrow> \<exists>n. (mem m ^^ Suc n) p = 0"
    and body: "(case dump_backstrace_symbols m p st of (p1, st1) \<Rightarrow>
                  if p1 \<noteq> 0 then loop m p1 st1 else Some st1) = Some y"
  show "\<exists>n. (mem m ^^ Suc n) p = 0"
  proof (cases "mem m p = 0")
    case True
    then have "(mem m ^^ Suc 0) p = 0" by simp
    then show ?thesis by blast
  next
    case False
    with body have "loop m (mem m p) (snd (dump_backstrace_symbols m p st)) = Some y"
      by (simp add: case_prod_unfold fst_dump_backstrace_symbols)
    from IH [OF this] obtain n where "(mem m ^^ Suc n) (mem m p) = 0" by blast
    then have "(mem m ^^ Suc (Suc n)) p = 0" by (simp add: funpow_swap1)
    then show ?thesis by blast
  qed
qed

lemma dump_stack_loop_reaches_Some:
  "(mem m ^^ Suc n) p = 0 \<Longrightarrow> \<exists>y. dump_stack_loop m p st = Some y"
proof (induction n arbitrary: p st)
  case 0
  then show ?case by (subst dump_stack_loop_step) simp
next
  case (Suc n)
  then have "(mem m ^^ Suc n) (mem m p) = 0" by (simp add: funpow_swap1)
  from Suc.IH [OF this] show ?case by (subst dump_stack_loop_step) simp
qed

lemma symbols_loop_reaches_Some:
  "(mem m ^^ Suc n) p = 0 \<Longrightarrow> \<exists>y. symbols_loop m p st = Some y"
proof (induction n arbitrary: p st)
  case 0
  then show ?case by (subst symbols_loop_step) simp
next
  case (Suc n)
  then have "(mem m ^^ Suc n) (mem m p) = 0" by (simp add: funpow_swap1)
  from Suc.IH [OF this] show ?case by (subst symbols_loop_step) simp
qed

lemma dump_stack_loop_None_iff:
  "dump_stack_loop m p st = None \<longleftrightarrow> (\<forall>n. (mem m ^^ Suc n) p \<noteq> 0)"
  using dump_stack_loop_Some_reaches [of m p st] dump_stack_loop_reaches_Some [where m = m and p = p and st = st]
  by (cases "dump_stack_loop m p st") auto

lemma symbols_loop_None_iff:
  "symbols_loop m p st = None \<longleftrightarrow> (\<forall>n. (mem m ^^ Suc n) p \<noteq> 0)"
  using symbols_loop_Some_reaches [of m p st] symbols_loop_reaches_Some [where m = m and p = p and st = st]
  by (cases "symbols_loop m p st") auto

lemma mon_backtrace_None_iff:
  "mon_backtrace argc argv tf m st = None \<longleftrightarrow> (\<forall>n. (mem m ^^ Suc n) (ebp m) \<noteq> 0)"
proof (cases "\<forall>n. (mem m ^^ Suc n) (ebp m) \<noteq> 0")
  case True
  then have "dump_stack_loop m (ebp m) s = None" for s
    by (simp add: dump_stack_loop_None_iff)
  with True show ?thesis
    by (simp add: mon_backtrace_def Let_def read_ebp_def)
next
  case False
  then obtain n where n: "(mem m ^^ Suc n) (ebp m) = 0" by blast
  define st3 where "st3 = cprintf ''\<newline>'' []
    ((cprintf ''current eip=%08x'' [AHex (read_eip m)] st)
       \<lparr>info := snd (debuginfo_eip m (read_eip m)
          (info (cprintf ''current eip=%08x'' [AHex (read_eip m)] st)))\<rparr>)"
  obtain st4 where d: "dump_stack_loop m (ebp m) st3 = Some st4"
    using dump_stack_loop_reaches_Some [OF n] by blast
  obtain st6 where s: "symbols_loop m (ebp m) (cprintf ''\<newline>'' [] st4) = Some st6"
    using symbols_loop_reaches_Some [OF n] by blast
  from d s have "mon_backtrace argc argv tf m st = ret 0 st6"
    by (simp add: mon_backtrace_def Let_def read_ebp_def st3_def)
  with False show ?thesis by (simp add: ret_def)
qed

lemma upt_2_7: "[2..<7] = [2, 3, 4, 5, 6]"
  by (simp add: upt_rec)

lemma dump_stack_console:
  "length (console (snd (dump_stack m q s))) = length (console s) + 6"
  by (simp add: dump_stack_def Let_def cprintf_def upt_2_7)

lemma dump_stack_info: "info (snd (dump_stack m q s)) = info s"
  by (simp add: dump_stack_def Let_def cprintf_def upt_2_7)

lemma dump_pass_console:
  "length (console (foldl (\<lambda>s q. snd (dump_stack m q s)) st qs))
     = length (console st) + 6 * length qs"
  by (induction qs arbitrary: st) (simp_all add: dump_stack_console)

lemma dump_pass_info: "info (foldl (\<lambda>s q. snd (dump_stack m q s)) st qs) = info st"
  by (induction qs arbitrary: st) (simp_all add: dump_stack_info)

lemma symbols_step_console:
  "console (snd (dump_backstrace_symbols m q s)) = console s @ [symbol_line (info s)]"
  by (simp add: dump_backstrace_symbols_def Let_def cprintf_def symbol_line_def)

lemma symbols_step_info:
  "info (snd (dump_backstrace_symbols m q s)) = snd (debuginfo_eip m (mem m (q + 4)) (info s))"
  by (simp add: dump_backstrace_symbols_def Let_def cprintf_def)

lemma symbols_pass_console:
  "console (foldl (\<lambda>s q. snd (dump_backstrace_symbols m q s)) st qs)
     = console st @ map symbol_line (resolved m (info st) qs)"
  by (induction qs arbitrary: st) (simp_all add: symbols_step_console symbols_step_info)

lemma length_resolved: "length (resolved m i qs) = length qs"
  by (induction qs arbitrary: i) simp_all

lemma mon_backtrace_chain:
  assumes "frame_chain m (ebp m # ps)"
  shows "\<exists>st1. mon_backtrace argc argv tf m st = Some (Inr (0, st1))
     \<and> length (console st1) = length (console st) + 3 + 7 * length (ebp m # ps)
     \<and> drop (length (console st) + 3 + 6 * length (ebp m # ps)) (console st1)
         = map symbol_line
             (resolved m (snd (debuginfo_eip m (read_eip m) (info st))) (ebp m # ps))"
proof -
  define st3 where "st3 = cprintf ''\<newline>'' []
    ((cprintf ''current eip=%08x'' [AHex (read_eip m)] st)
       \<lparr>info := snd (debuginfo_eip m (read_eip m)
          (info (cprintf ''current eip=%08x'' [AHex (read_eip m)] st)))\<rparr>)"
  define st4 where "st4 = foldl (\<lambda>s q. snd (dump_stack m q s)) st3 (ebp m # ps)"
  define st5 where "st5 = cprintf ''\<newline>'' [] st4"
  define st6 where "st6 = foldl (\<lambda>s q. snd (dump_backstrace_symbols m q s)) st5 (ebp m # ps)"
  have d: "dump_stack_loop m (ebp m) st3 = Some st4"
    unfolding st4_def by (rule dump_stack_loop_chain [OF assms])
  have s: "symbols_loop m (ebp m) st5 = Some st6"
    unfolding st6_def by (rule symbols_loop_chain [OF assms])
  have r: "mon_backtrace argc argv tf m st = Some (Inr (0, st6))"
    using d s by (simp add: mon_backtrace_def Let_def read_ebp_def st3_def st5_def ret_def)
  have l3: "length (console st3) = length (console st) + 2"
    by (simp add: st3_def cprintf_def)
  have i3: "info st3 = snd (debuginfo_eip m (read_eip m) (info st))"
    by (simp add: st3_def cprintf_def)
  have l4: "length (console st4) = length (console st) + 2 + 6 * length (ebp m # ps)"
    unfolding st4_def by (simp only: dump_pass_console l3)
  have i4: "info st4 = snd (debuginfo_eip m (read_eip m) (info st))"
    unfolding st4_def by (simp only: dump_pass_info i3)
  have c5: "console st5 = console st4 @ [Cprintf ''\<newline>'' []]" and i5: "info st5 = info st4"
    by (simp_all add: st5_def cprintf_def)
  have c6: "console st6 = console st5 @ map symbol_line (resolved m (info st5) (ebp m # ps))"
    unfolding st6_def by (rule symbols_pass_console)
  have len: "length (console st6) = length (console st) + 3 + 7 * length (ebp m # ps)"
    by (simp add: c6 c5 l4 length_resolved)
  have l5: "length (console st5) = length (console st) + 3 + 6 * length (ebp m # ps)"
    by (simp add: c5 l4)
  have "drop (length (console st5)) (console st6)
          = map symbol_line (resolved m (info st5) (ebp m # ps))"
    by (simp add: c6)
  then have dr: "drop (length (console st) + 3 + 6 * length (ebp m # ps)) (console st6)
         = map symbol_line
             (resolved m (snd (debuginfo_eip m (read_eip m) (info st))) (ebp m # ps))"
    by (simp only: l5 i5 i4)
  from r len dr show ?thesis by blast
qed


lemma resolved_nth:
  "k < length qs \<Longrightarrow>
   resolved m i qs ! k
     = (case k of 0 \<Rightarrow> i
        | Suc j \<Rightarrow> snd (debuginfo_eip m (mem m (qs ! j + 4)) (resolved m i qs ! j)))"
proof (induction qs arbitrary: i k)
  case Nil
  then show ?case by simp
next
  case (Cons q qs)
  show ?case
  proof (cases k)
    case 0
    then show ?thesis by simp
  next
    case (Suc j)
    note k = this
    with Cons.prems have j: "j < length qs" by simp
    show ?thesis
    proof (cases j)
      case 0
      with k j show ?thesis by (cases qs) simp_all
    next
      case (Suc l)
      with k j Cons.IH [OF j, of "snd (debuginfo_eip m (mem m (q + 4)) i)"]
      show ?thesis by simp
    qed
  qed
qed

lemma self_loop_never:
  "(mem (synthetic_machine 0x1000 self_loop) ^^ n) 0x1000 = 0x1000"
  by (induction n) (simp_all add: synthetic_machine_def stack_of_def self_loop_def)

lemma two_cycle_never:
  "(mem (synthetic_machine 0x1000 two_cycle) ^^ n) 0x1000 = (if even n then 0x1000 else 0x2000)"
  by (induction n) (simp_all add: synthetic_machine_def stack_of_def two_cycle_def)

lemma mon_backtrace_None_or_zero:
  "mon_backtrace argc argv tf m st = None
   \<or> (\<exists>st1. mon_backtrace argc argv tf m st = Some (Inr (0, st1)))"
  by (auto simp: mon_backtrace_def Let_def ret_def split: option.splits)

section \<open>Properties of the backtrace\<close>

text \<open>
  C1: on a frame-pointer chain of known length N whose N-th saved frame pointer is the
  zero sentinel, the dump pass and the symbol pass each run their step on exactly the
  N frames of the chain, in order, and halt: N times six lines and N lines are
  printed, and the backtrace command returns 0.
\<close>
theorem backtrace_passes_visit_chain:
  "frame_chain m (p # ps) \<Longrightarrow>
     dump_stack_loop m p st = Some (foldl (\<lambda>s q. snd (dump_stack m q s)) st (p # ps))
   \<and> symbols_loop m p st
       = Some (foldl (\<lambda>s q. snd (dump_backstrace_symbols m q s)) st (p # ps))
   \<and> length (console (foldl (\<lambda>s q. snd (dump_stack m q s)) st (p # ps)))
       = length (console st) + 6 * length (p # ps)
   \<and> length (console (foldl (\<lambda>s q. snd (dump_backstrace_symbols m q s)) st (p # ps)))
       = length (console st) + length (p # ps)
   \<and> (p = ebp m \<longrightarrow> (\<exists>st1. mon_backtrace argc argv tf m st = Some (Inr (0, st1))
         \<and> length (console st1) = length (console st) + 3 + 7 * length (p # ps)))"
proof (intro conjI impI)
  assume ch: "frame_chain m (p # ps)"
  show "dump_stack_loop m p st = Some (foldl (\<lambda>s q. snd (dump_stack m q s)) st (p # ps))"
    by (rule dump_stack_loop_chain [OF ch])
  show "symbols_loop m p st
       = Some (foldl (\<lambda>s q. snd (dump_backstrace_symbols m q s)) st (p # ps))"
    by (rule symbols_loop_chain [OF ch])
  show "length (console (foldl (\<lambda>s q. snd (dump_stack m q s)) st (p # ps)))
       = length (console st) + 6 * length (p # ps)"
    by (rule dump_pass_console)
  show "length (console (foldl (\<lambda>s q. snd (dump_backstrace_symbols m q s)) st (p # ps)))
       = length (console st) + length (p # ps)"
    by (simp only: symbols_pass_console length_append length_map length_resolved)
  assume "p = ebp m"
  with ch have "frame_chain m (ebp m # ps)" by simp
  from mon_backtrace_chain [OF this, of argc argv tf st] \<open>p = ebp m\<close>
  show "\<exists>st1. mon_backtrace argc argv tf m st = Some (Inr (0, st1))
         \<and> length (console st1) = length (console st) + 3 + 7 * length (p # ps)"
    by blast
qed

text \<open>C1 on the synthetic chain of two frames.\<close>

theorem backtrace_passes_visit_chain_witness:
  "frame_chain (synthetic_machine 0x1000 two_frames) [0x1000, 0x2000]
   \<and> map_option (length \<circ> console)
       (dump_stack_loop (synthetic_machine 0x1000 two_frames) 0x1000 boot_state) = Some 12
   \<and> map_option (length \<circ> console)
       (symbols_loop (synthetic_machine 0x1000 two_frames) 0x1000 boot_state) = Some 2
   \<and> length (console_of (mon_backtrace 1 [''backtrace''] None
        (synthetic_machine 0x1000 two_frames) boot_state)) = 17"
proof -
  have ch: "frame_chain (synthetic_machine 0x1000 two_frames) (0x1000 # [0x2000])"
    by (simp add: synthetic_machine_def two_frames_def stack_of_def)
  have e: "0x1000 = ebp (synthetic_machine 0x1000 two_frames)"
    by (simp add: synthetic_machine_def)
  have c: "console boot_state = []"
    by (simp add: boot_state_def)
  from backtrace_passes_visit_chain [OF ch, of boot_state 1 "[''backtrace'']" None] e c ch
  show ?thesis
    by (auto simp: console_of_def)
qed

text \<open>
  C2 as stated fails. On the synthetic chain of two frames the symbol pass prints, for
  the frame at 0x1000, the record of the address loaded by \<open>read_eip\<close> and, for
  the frame at 0x2000, the record of the return address saved in the frame at 0x1000;
  the symbolizer applied to the frames' own saved return addresses gives the records
  of \<open>runcmd\<close> and of the placeholder.
\<close>
theorem symbol_pass_claimed_counterexample:
  "drop 15 (console_of (mon_backtrace 1 [''backtrace''] None
       (synthetic_machine 0x1000 two_frames) boot_state))
     = [Cprintf ''%s %d\<newline>'' [AStr (Some ''mon_backtrace''), AInt 175],
        Cprintf ''%s %d\<newline>'' [AStr (Some ''runcmd''), AInt 235]]
   \<and> symbol_line (snd (debuginfo_eip (synthetic_machine 0x1000 two_frames)
         (mem (synthetic_machine 0x1000 two_frames) (0x1000 + 4)) (info boot_state)))
     = Cprintf ''%s %d\<newline>'' [AStr (Some ''runcmd''), AInt 235]
   \<and> symbol_line (snd (debuginfo_eip (synthetic_machine 0x1000 two_frames)
         (mem (synthetic_machine 0x1000 two_frames) (0x2000 + 4)) (info boot_state)))
     = Cprintf ''%s %d\<newline>'' [AStr (Some ''<unknown>''), AInt 0]"
proof -
  have ch: "frame_chain (synthetic_machine 0x1000 two_frames)
              (ebp (synthetic_machine 0x1000 two_frames) # [0x2000])"
    by (simp add: synthetic_machine_def two_frames_def stack_of_def)
  from mon_backtrace_chain [OF ch, of 1 "[''backtrace'']" None boot_state]
  obtain st1 where r: "mon_backtrace 1 [''backtrace''] None
       (synthetic_machine 0x1000 two_frames) boot_state = Some (Inr (0, st1))"
    and d: "drop (length (console boot_state) + 3
              + 6 * length (ebp (synthetic_machine 0x1000 two_frames) # [0x2000])) (console st1)
          = map symbol_line (resolved (synthetic_machine 0x1000 two_frames)
              (snd (debuginfo_eip (synthetic_machine 0x1000 two_frames)
                 (read_eip (synthetic_machine 0x1000 two_frames)) (info boot_state)))
              (ebp (synthetic_machine 0x1000 two_frames) # [0x2000]))"
    by blast
  have c: "console boot_state = []" by (simp add: boot_state_def)
  have "drop 15 (console st1)
          = [Cprintf ''%s %d\<newline>'' [AStr (Some ''mon_backtrace''), AInt 175],
             Cprintf ''%s %d\<newline>'' [AStr (Some ''runcmd''), AInt 235]]"
    using d by (simp add: c synthetic_machine_def two_frames_def stack_of_def read_eip_def
        synthetic_symbolizer_def symbol_line_def)
  with r show ?thesis
    by (simp add: console_of_def synthetic_machine_def two_frames_def stack_of_def
        synthetic_symbolizer_def symbol_line_def)
qed

text \<open>
  C2, amended: the symbol pass prints one line for each frame of the chain and never
  stops on a symbolizer failure, whose return value it ignores. The line of the first
  frame shows the record the pass starts with (in the command, the one the symbolizer
  left for the address loaded by \<open>read_eip\<close>); the line of each later frame shows
  the record the symbolizer left for the saved return address of the frame visited
  just before it.
\<close>

theorem symbol_pass_prints_previous_resolution:
  "frame_chain m (p # ps) \<Longrightarrow>
     (\<exists>st1. symbols_loop m p st = Some st1
        \<and> console st1 = console st @ map symbol_line (resolved m (info st) (p # ps)))
   \<and> length (resolved m (info st) (p # ps)) = length (p # ps)
   \<and> resolved m (info st) (p # ps) ! 0 = info st
   \<and> (\<forall>k < length ps. resolved m (info st) (p # ps) ! Suc k
         = snd (debuginfo_eip m (mem m ((p # ps) ! k + 4)) (resolved m (info st) (p # ps) ! k)))
   \<and> (p = ebp m \<longrightarrow>
        (\<exists>st1. mon_backtrace argc argv tf m st = Some (Inr (0, st1))
           \<and> drop (length (console st) + 3 + 6 * length (p # ps)) (console st1)
               = map symbol_line
                   (resolved m (snd (debuginfo_eip m (read_eip m) (info st))) (p # ps))))"
proof (intro conjI impI allI)
  assume ch: "frame_chain m (p # ps)"
  show "\<exists>st1. symbols_loop m p st = Some st1
        \<and> console st1 = console st @ map symbol_line (resolved m (info st) (p # ps))"
    using symbols_loop_chain [OF ch, of st] symbols_pass_console [of m st "p # ps"] by simp
  show "length (resolved m (info st) (p # ps)) = length (p # ps)"
    by (rule length_resolved)
  show "resolved m (info st) (p # ps) ! 0 = info st" by simp
  show "resolved m (info st) (p # ps) ! Suc k
         = snd (debuginfo_eip m (mem m ((p # ps) ! k + 4)) (resolved m (info st) (p # ps) ! k))"
    if "k < length ps" for k
    using resolved_nth [of "Suc k" "p # ps" m "info st"] that by simp
  assume "p = ebp m"
  with ch mon_backtrace_chain [of m ps argc argv tf st]
  show "\<exists>st1. mon_backtrace argc argv tf m st = Some (Inr (0, st1))
           \<and> drop (length (console st) + 3 + 6 * length (p # ps)) (console st1)
               = map symbol_line
                   (resolved m (snd (debuginfo_eip m (read_eip m) (info st))) (p # ps))"
    by auto
qed

text \<open>C2, amended, on the synthetic chain of two frames.\<close>

theorem symbol_pass_prints_previous_resolution_witness:
  "frame_chain (synthetic_machine 0x1000 two_frames) [0x1000, 0x2000]
   \<and> map_option console (symbols_loop (synthetic_machine 0x1000 two_frames) 0x1000
        (boot_state\<lparr>info := \<lparr>eip_file = None, eip_line = 7, eip_fn_name = Some ''entry''\<rparr>\<rparr>))
     = Some [Cprintf ''%s %d\<newline>'' [AStr (Some ''entry''), AInt 7],
             Cprintf ''%s %d\<newline>'' [AStr (Some ''runcmd''), AInt 235]]"
proof -
  have ch: "frame_chain (synthetic_machine 0x1000 two_frames) (0x1000 # [0x2000])"
    by (simp add: synthetic_machine_def two_frames_def stack_of_def)
  from symbol_pass_prints_previous_resolution [OF ch,
      of "boot_state\<lparr>info := \<lparr>eip_file = None, eip_line = 7, eip_fn_name = Some ''entry''\<rparr>\<rparr>"]
  obtain st1 where
    "symbols_loop (synthetic_machine 0x1000 two_frames) 0x1000
        (boot_state\<lparr>info := \<lparr>eip_file = None, eip_line = 7, eip_fn_name = Some ''entry''\<rparr>\<rparr>)
       = Some st1"
    "console st1 = console (boot_state\<lparr>info := \<lparr>eip_file = None, eip_line = 7, eip_fn_name = Some ''entry''\<rparr>\<rparr>)
       @ map symbol_line (resolved (synthetic_machine 0x1000 two_frames)
           (info (boot_state\<lparr>info := \<lparr>eip_file = None, eip_line = 7, eip_fn_name = Some ''entry''\<rparr>\<rparr>))
           (0x1000 # [0x2000]))"
    by blast
  with ch show ?thesis
    by (simp add: boot_state_def synthetic_machine_def two_frames_def stack_of_def
        synthetic_symbolizer_def symbol_line_def)
qed

text \<open>
  C3 as stated fails: the loops count no frames. On a frame whose saved frame pointer
  is its own address the backtrace command never returns.
\<close>
theorem backtrace_cycle_counterexample:
  "mem (synthetic_machine 0x1000 self_loop) 0x1000 = 0x1000
   \<and> mon_backtrace 1 [''backtrace''] None (synthetic_machine 0x1000 self_loop) boot_state = None"
proof
  show "mem (synthetic_machine 0x1000 self_loop) 0x1000 = 0x1000"
    by (simp add: synthetic_machine_def stack_of_def self_loop_def)
  have "ebp (synthetic_machine 0x1000 self_loop) = 0x1000"
    by (simp add: synthetic_machine_def)
  then show "mon_backtrace 1 [''backtrace''] None (synthetic_machine 0x1000 self_loop) boot_state = None"
    by (simp only: mon_backtrace_None_iff self_loop_never) simp
qed

text \<open>
  C3, amended: no frame-count bound exists. Each unwinding loop, and the backtrace
  command, fails to return exactly when no number of links from the starting frame
  pointer reaches the zero sentinel, as on every chain that contains a cycle; in
  every other case the command returns 0.
\<close>

theorem backtrace_returns_iff_sentinel:
  "(dump_stack_loop m p st = None \<longleftrightarrow> (\<forall>n. (mem m ^^ Suc n) p \<noteq> 0))
   \<and> (symbols_loop m p st = None \<longleftrightarrow> (\<forall>n. (mem m ^^ Suc n) p \<noteq> 0))
   \<and> (mon_backtrace argc argv tf m st = None \<longleftrightarrow> (\<forall>n. (mem m ^^ Suc n) (ebp m) \<noteq> 0))
   \<and> (mon_backtrace argc argv tf m st = None
        \<or> (\<exists>st1. mon_backtrace argc argv tf m st = Some (Inr (0, st1))))"
  using mon_backtrace_None_or_zero [of argc argv tf m st]
  by (simp only: dump_stack_loop_None_iff symbols_loop_None_iff mon_backtrace_None_iff)

text \<open>C3, amended, on two frames that point at each other.\<close>

theorem backtrace_returns_iff_sentinel_witness:
  "(\<forall>n. (mem (synthetic_machine 0x1000 two_cycle) ^^ Suc n) 0x1000 \<noteq> 0)
   \<and> dump_stack_loop (synthetic_machine 0x1000 two_cycle) 0x1000 boot_state = None
   \<and> symbols_loop (synthetic_machine 0x1000 two_cycle) 0x1000 boot_state = None
   \<and> mon_backtrace 1 [''backtrace''] None (synthetic_machine 0x1000 two_cycle) boot_state = None"
proof -
  have never: "\<forall>n. (mem (synthetic_machine 0x1000 two_cycle) ^^ Suc n) 0x1000 \<noteq> 0"
    by (simp only: two_cycle_never) simp
  have e: "ebp (synthetic_machine 0x1000 two_cycle) = 0x1000"
    by (simp add: synthetic_machine_def)
  from never e
    backtrace_returns_iff_sentinel [of "synthetic_machine 0x1000 two_cycle" "0x1000" boot_state
      1 "[''backtrace'']" None]
  show ?thesis by simp
qed

section \<open>The tokenizer\<close>

lemma nul_not_ws: "\<not> strchr WHITESPACE (CHR 0x00)"
  by (simp add: strchr_def WHITESPACE_def)

lemma peek_end: "peek pre (length pre) = CHR 0x00"
  by (simp add: peek_def)

lemma peek_append: "peek (pre @ s) (length pre) = (case s of [] \<Rightarrow> CHR 0x00 | c # cs \<Rightarrow> c)"
  by (cases s) (simp_all add: peek_def)

lemma gobble_run:
  "\<forall>c \<in> set w. strchr WHITESPACE c \<Longrightarrow> r = [] \<or> \<not> strchr WHITESPACE (hd r) \<Longrightarrow>
   gobble (pre @ w @ r) (length pre) = (pre @ replicate (length w) (CHR 0x00) @ r, length pre + length w)"
proof (induction w arbitrary: pre)
  case Nil
  then show ?case
    by (subst gobble.simps) (cases r; simp add: peek_append peek_end)
next
  case (Cons c w)
  from Cons.prems have c: "strchr WHITESPACE c" and w: "\<forall>c \<in> set w. strchr WHITESPACE c"
    by simp_all
  from c nul_not_ws have nz: "c \<noteq> CHR 0x00" by auto
  have upd: "(pre @ (c # w) @ r)[length pre := CHR 0x00] = (pre @ [CHR 0x00]) @ w @ r"
    by simp
  have "gobble (pre @ (c # w) @ r) (length pre)
          = gobble ((pre @ [CHR 0x00]) @ w @ r) (length (pre @ [CHR 0x00]))"
    by (subst gobble.simps) (simp add: peek_append c nz)
  also have "\<dots> = ((pre @ [CHR 0x00]) @ replicate (length w) (CHR 0x00) @ r,
                    length (pre @ [CHR 0x00]) + length w)"
    by (rule Cons.IH [OF w Cons.prems(2)])
  finally show ?case by (simp add: replicate_app_Cons_same)
qed

lemma scan_run:
  "\<forall>c \<in> set t. c \<noteq> CHR 0x00 \<and> \<not> strchr WHITESPACE c \<Longrightarrow>
   r = [] \<or> strchr WHITESPACE (hd r) \<Longrightarrow>
   scan_arg (pre @ t @ r) (length pre) = length pre + length t"
proof (induction t arbitrary: pre)
  case Nil
  then show ?case
    by (subst scan_arg.simps) (cases r; simp add: peek_append peek_end)
next
  case (Cons c t)
  from Cons.prems have c: "c \<noteq> CHR 0x00" "\<not> strchr WHITESPACE c"
    and t: "\<forall>c \<in> set t. c \<noteq> CHR 0x00 \<and> \<not> strchr WHITESPACE c"
    by simp_all
  have "scan_arg (pre @ (c # t) @ r) (length pre)
          = scan_arg ((pre @ [c]) @ t @ r) (length (pre @ [c]))"
    by (subst scan_arg.simps) (simp add: peek_append c)
  also have "\<dots> = length (pre @ [c]) + length t"
    by (rule Cons.IH [OF t Cons.prems(2)])
  finally show ?case by simp
qed


lemma split_ws_Nil: "\<forall>c \<in> set s. strchr WHITESPACE c \<Longrightarrow> split_ws s = []"
  by (subst split_ws.simps) simp

lemma starts_Nil: "\<forall>c \<in> set s. strchr WHITESPACE c \<Longrightarrow> starts i s = []"
  by (subst starts.simps) simp

lemma map_terminated_ws:
  "\<forall>c \<in> set w. strchr WHITESPACE c \<Longrightarrow> map terminated w = replicate (length w) (CHR 0x00)"
  by (induction w) (simp_all add: terminated_def)

lemma map_terminated_word:
  "\<forall>c \<in> set t. \<not> strchr WHITESPACE c \<Longrightarrow> map terminated t = t"
  by (induction t) (simp_all add: terminated_def)

text \<open>A string that is not all whitespace, taken apart at its first token.\<close>

lemma first_word:
  assumes "dropWhile (strchr WHITESPACE) s \<noteq> []"
  defines "w \<equiv> takeWhile (strchr WHITESPACE) s"
  defines "t \<equiv> takeWhile (\<lambda>c. \<not> strchr WHITESPACE c) (dropWhile (strchr WHITESPACE) s)"
  defines "r \<equiv> dropWhile (\<lambda>c. \<not> strchr WHITESPACE c) (dropWhile (strchr WHITESPACE) s)"
  shows "s = w @ t @ r" "\<forall>c \<in> set w. strchr WHITESPACE c"
    "\<forall>c \<in> set t. \<not> strchr WHITESPACE c" "t \<noteq> []" "r = [] \<or> strchr WHITESPACE (hd r)"
proof -
  show "s = w @ t @ r" by (simp add: w_def t_def r_def)
  show "\<forall>c \<in> set w. strchr WHITESPACE c"
    by (auto simp: w_def dest: set_takeWhileD)
  show "\<forall>c \<in> set t. \<not> strchr WHITESPACE c"
    by (auto simp: t_def dest: set_takeWhileD)
  from assms(1) hd_dropWhile [of "strchr WHITESPACE" s]
  have "\<not> strchr WHITESPACE (hd (dropWhile (strchr WHITESPACE) s))" by simp
  with assms(1) show "t \<noteq> []"
    by (cases "dropWhile (strchr WHITESPACE) s") (simp_all add: t_def)
  show "r = [] \<or> strchr WHITESPACE (hd r)"
    using hd_dropWhile [of "\<lambda>c. \<not> strchr WHITESPACE c" "dropWhile (strchr WHITESPACE) s"]
    by (auto simp: r_def)
qed

lemma parse_args_split:
  "CHR 0x00 \<notin> set s \<Longrightarrow> length argv < MAXARGS \<Longrightarrow>
   parse_args (pre @ s) (length pre) argv
     = (if length argv + length (split_ws s) < MAXARGS
        then Parsed (pre @ map terminated s) (argv @ starts (length pre) s)
        else TooMany)"
proof (induction s arbitrary: pre argv rule: split_ws.induct)
  case (1 s)
  show ?case
  proof (cases "dropWhile (strchr WHITESPACE) s = []")
    case True
    then have ws: "\<forall>c \<in> set s. strchr WHITESPACE c" by (simp add: dropWhile_eq_Nil_conv)
    have g: "gobble (pre @ s) (length pre) = (pre @ replicate (length s) (CHR 0x00), length pre + length s)"
      using gobble_run [OF ws, of "[]" pre] by simp
    have p: "peek (pre @ replicate (length s) (CHR 0x00)) (length pre + length s) = CHR 0x00"
      using peek_end [of "pre @ replicate (length s) (CHR 0x00)"] by simp
    show ?thesis
      using "1.prems"
      by (subst parse_args.simps)
         (simp add: g p split_ws_Nil [OF ws] starts_Nil [OF ws] map_terminated_ws [OF ws])
  next
    case False
    define w where "w = takeWhile (strchr WHITESPACE) s"
    define t where "t = takeWhile (\<lambda>c. \<not> strchr WHITESPACE c) (dropWhile (strchr WHITESPACE) s)"
    define r where "r = dropWhile (\<lambda>c. \<not> strchr WHITESPACE c) (dropWhile (strchr WHITESPACE) s)"
    note fw = first_word [OF False, folded w_def t_def r_def]
    from fw(1) "1.prems"(1) have nz_t: "\<forall>c \<in> set t. c \<noteq> CHR 0x00" and nz_r: "CHR 0x00 \<notin> set r"
      by auto
    obtain x t' where t: "t = x # t'" using fw(4) by (cases t) auto
    have sp: "split_ws s = t # split_ws r"
      using False by (subst split_ws.simps) (simp add: t_def r_def Let_def)
    have st: "starts (length pre) s
                = (length pre + length w) # starts (length pre + length w + length t) r"
      using False by (subst starts.simps) (simp add: w_def t_def r_def Let_def)
    have g: "gobble (pre @ s) (length pre)
               = (pre @ replicate (length w) (CHR 0x00) @ t @ r, length pre + length w)"
      using gobble_run [OF fw(2), of "t @ r" pre] fw(3) t by (simp add: fw(1))
    have p: "peek (pre @ replicate (length w) (CHR 0x00) @ t @ r) (length pre + length w) = x"
      using peek_append [of "pre @ replicate (length w) (CHR 0x00)" "t @ r"] by (simp add: t)
    have x: "x \<noteq> CHR 0x00" using nz_t t by simp
    have sc: "scan_arg (pre @ replicate (length w) (CHR 0x00) @ t @ r) (length pre + length w)
                = length pre + length w + length t"
      using scan_run [of t r "pre @ replicate (length w) (CHR 0x00)"] fw(3,5) nz_t by simp
    have "map terminated s = map terminated w @ map terminated t @ map terminated r"
      by (subst fw(1)) simp
    then have e: "pre @ map terminated s
                    = pre @ replicate (length w) (CHR 0x00) @ t @ map terminated r"
      by (simp add: map_terminated_ws [OF fw(2)] map_terminated_word [OF fw(3)])
    show ?thesis
    proof (cases "length argv = MAXARGS - 1")
      case True
      with "1.prems"(2) show ?thesis
        by (subst parse_args.simps) (simp add: g p x sp)
    next
      case lt: False
      with "1.prems"(2) have len: "length (argv @ [length pre + length w]) < MAXARGS" by simp
      have "parse_args (pre @ s) (length pre) argv
              = parse_args ((pre @ replicate (length w) (CHR 0x00) @ t) @ r)
                  (length (pre @ replicate (length w) (CHR 0x00) @ t))
                  (argv @ [length pre + length w])"
        using lt by (subst parse_args.simps) (simp add: g p x sc add.assoc)
      also have "\<dots> = (if length (argv @ [length pre + length w]) + length (split_ws r) < MAXARGS
          then Parsed ((pre @ replicate (length w) (CHR 0x00) @ t) @ map terminated r)
                 ((argv @ [length pre + length w])
                    @ starts (length (pre @ replicate (length w) (CHR 0x00) @ t)) r)
          else TooMany)"
        using "1.IH" [OF refl False nz_r [unfolded r_def] len,
            where pre = "pre @ replicate (length w) (CHR 0x00) @ t", folded r_def]
        by simp
      also have "\<dots> = (if length argv + length (split_ws s) < MAXARGS
        then Parsed (pre @ map terminated s) (argv @ starts (length pre) s)
        else TooMany)"
        by (simp add: sp st e add.assoc)
      finally show ?thesis .
    qed
  qed
qed



lemma cstr_word:
  assumes "\<forall>c \<in> set t. c \<noteq> CHR 0x00" "r = [] \<or> strchr WHITESPACE (hd r)"
  shows "cstr (pre @ t @ map terminated r) (length pre) = t"
proof -
  have "takeWhile (\<lambda>c. c \<noteq> CHR 0x00) (map terminated r) = []"
    using assms(2) by (cases r) (simp_all add: terminated_def)
  with assms(1) show ?thesis by (simp add: cstr_def takeWhile_append2)
qed

lemma cstr_starts:
  "CHR 0x00 \<notin> set s \<Longrightarrow>
   map (cstr (pre @ map terminated s)) (starts (length pre) s) = split_ws s"
proof (induction s arbitrary: pre rule: split_ws.induct)
  case (1 s)
  show ?case
  proof (cases "dropWhile (strchr WHITESPACE) s = []")
    case True
    then have ws: "\<forall>c \<in> set s. strchr WHITESPACE c" by (simp add: dropWhile_eq_Nil_conv)
    show ?thesis by (simp add: split_ws_Nil [OF ws] starts_Nil [OF ws])
  next
    case False
    define w where "w = takeWhile (strchr WHITESPACE) s"
    define t where "t = takeWhile (\<lambda>c. \<not> strchr WHITESPACE c) (dropWhile (strchr WHITESPACE) s)"
    define r where "r = dropWhile (\<lambda>c. \<not> strchr WHITESPACE c) (dropWhile (strchr WHITESPACE) s)"
    note fw = first_word [OF False, folded w_def t_def r_def]
    from fw(1) "1.prems"(1) have nz_t: "\<forall>c \<in> set t. c \<noteq> CHR 0x00" and nz_r: "CHR 0x00 \<notin> set r"
      by auto
    have sp: "split_ws s = t # split_ws r"
      using False by (subst split_ws.simps) (simp add: t_def r_def Let_def)
    have st: "starts (length pre) s
                = (length pre + length w) # starts (length pre + length w + length t) r"
      using False by (subst starts.simps) (simp add: w_def t_def r_def Let_def)
    have "map terminated s = map terminated w @ map terminated t @ map terminated r"
      by (subst fw(1)) simp
    then have e: "pre @ map terminated s
                    = (pre @ replicate (length w) (CHR 0x00)) @ t @ map terminated r"
      by (simp add: map_terminated_ws [OF fw(2)] map_terminated_word [OF fw(3)])
    have hd: "cstr (pre @ map terminated s) (length pre + length w) = t"
      using cstr_word [OF nz_t fw(5), of "pre @ replicate (length w) (CHR 0x00)"]
      by (simp only: e) simp
    have e2: "pre @ map terminated s
                = (pre @ replicate (length w) (CHR 0x00) @ t) @ map terminated r"
      by (simp add: e)
    have tl: "map (cstr (pre @ map terminated s)) (starts (length pre + length w + length t) r)
                = split_ws r"
      using "1.IH" [OF refl False nz_r [unfolded r_def],
          where pre = "pre @ replicate (length w) (CHR 0x00) @ t", folded r_def]
      by (simp only: e2) (simp add: add.assoc)
    show ?thesis by (simp add: sp st hd tl)
  qed
qed




lemma tokens_split:
  "CHR 0x00 \<notin> set line \<Longrightarrow>
   tokens line = (if length (split_ws line) < MAXARGS then Some (split_ws line) else None)"
  using parse_args_split [of line "[]" "[]"] cstr_starts [of line "[]"]
  by (simp add: tokens_def MAXARGS_def)




lemma runcmd_split:
  "CHR 0x00 \<notin> set line \<Longrightarrow>
   runcmd line tf m st
     = (if length (split_ws line) < MAXARGS
        then dispatch (int (length (split_ws line))) (split_ws line) tf m st
        else Some (Inr (0, st\<lparr>console := console st
               @ [Cprintf ''Too many arguments (max %d)\<newline>'' [AInt 16]]\<rparr>)))"
proof -
  assume nz: "CHR 0x00 \<notin> set line"
  have len: "length (starts 0 line) = length (split_ws line)"
    using cstr_starts [OF nz, of "[]"] by (metis length_map list.size(3))
  show ?thesis
    using parse_args_split [OF nz, of "[]" "[]"] cstr_starts [OF nz, of "[]"]
    by (simp add: runcmd_def MAXARGS_def ret_def cprintf_def len)
qed




lemma split_ws_words:
  "u \<in> set (split_ws s) \<Longrightarrow> u \<noteq> [] \<and> (\<forall>c \<in> set u. \<not> strchr WHITESPACE c)"
proof (induction s rule: split_ws.induct)
  case (1 s)
  show ?case
  proof (cases "dropWhile (strchr WHITESPACE) s = []")
    case True
    then have ws: "\<forall>c \<in> set s. strchr WHITESPACE c" by (simp add: dropWhile_eq_Nil_conv)
    from "1.prems" show ?thesis by (simp add: split_ws_Nil [OF ws])
  next
    case False
    define t where "t = takeWhile (\<lambda>c. \<not> strchr WHITESPACE c) (dropWhile (strchr WHITESPACE) s)"
    define r where "r = dropWhile (\<lambda>c. \<not> strchr WHITESPACE c) (dropWhile (strchr WHITESPACE) s)"
    note fw = first_word [OF False, folded t_def r_def]
    have sp: "split_ws s = t # split_ws r"
      using False by (subst split_ws.simps) (simp add: t_def r_def Let_def)
    from "1.prems" have "u = t \<or> u \<in> set (split_ws r)"
      by (simp only: sp set_simps insert_iff)
    then show ?thesis
    proof
      assume "u = t"
      with fw(3,4) show ?thesis by simp
    next
      assume "u \<in> set (split_ws r)"
      then show ?thesis
        using "1.IH" [OF refl False, folded r_def] by simp
    qed
  qed
qed



lemma concat_split_ws: "concat (split_ws s) = filter (\<lambda>c. \<not> strchr WHITESPACE c) s"
proof (induction s rule: split_ws.induct)
  case (1 s)
  show ?case
  proof (cases "dropWhile (strchr WHITESPACE) s = []")
    case True
    then have ws: "\<forall>c \<in> set s. strchr WHITESPACE c" by (simp add: dropWhile_eq_Nil_conv)
    then have "filter (\<lambda>c. \<not> strchr WHITESPACE c) s = []" by (simp add: filter_empty_conv)
    then show ?thesis by (simp add: split_ws_Nil [OF ws])
  next
    case False
    define w where "w = takeWhile (strchr WHITESPACE) s"
    define t where "t = takeWhile (\<lambda>c. \<not> strchr WHITESPACE c) (dropWhile (strchr WHITESPACE) s)"
    define r where "r = dropWhile (\<lambda>c. \<not> strchr WHITESPACE c) (dropWhile (strchr WHITESPACE) s)"
    note fw = first_word [OF False, folded w_def t_def r_def]
    have sp: "split_ws s = t # split_ws r"
      using False by (subst split_ws.simps) (simp add: t_def r_def Let_def)
    have fw_w: "filter (\<lambda>c. \<not> strchr WHITESPACE c) w = []"
      using fw(2) by (simp add: filter_empty_conv)
    have fw_t: "filter (\<lambda>c. \<not> strchr WHITESPACE c) t = t"
      using fw(3) by (simp add: filter_id_conv)
    have "filter (\<lambda>c. \<not> strchr WHITESPACE c) s
            = filter (\<lambda>c. \<not> strchr WHITESPACE c) (w @ t @ r)"
      by (subst fw(1)) simp
    also have "\<dots> = t @ filter (\<lambda>c. \<not> strchr WHITESPACE c) r"
      by (simp add: fw_w fw_t)
    finally show ?thesis
      using "1.IH" [OF refl False, folded r_def] by (simp add: sp)
  qed
qed

lemma tokens_blank: "\<forall>c \<in> set line. strchr WHITESPACE c \<Longrightarrow> tokens line = Some []"
proof -
  assume ws: "\<forall>c \<in> set line. strchr WHITESPACE c"
  with nul_not_ws have "CHR 0x00 \<notin> set line" by blast
  from tokens_split [OF this] show ?thesis
    by (simp add: split_ws_Nil [OF ws] MAXARGS_def)
qed

text \<open>
  C6 as stated fails at its second half: a line of exactly sixteen tokens does not
  exceed \<open>MAXARGS\<close>, and still the parsing loop gives up with the message.
\<close>
theorem sixteen_tokens_counterexample:
  "MAXARGS = 16
   \<and> length (split_ws ''a b c d e f g h i j k l m n o p'') = 16
   \<and> tokens ''a b c d e f g h i j k l m n o p'' = None
   \<and> runcmd ''a b c d e f g h i j k l m n o p'' None (synthetic_machine 0x1000 two_frames) boot_state
       = Some (Inr (0, boot_state\<lparr>console :=
           [Cprintf ''Too many arguments (max %d)\<newline>'' [AInt 16]]\<rparr>))"
proof -
  have l: "length (split_ws ''a b c d e f g h i j k l m n o p'') = 16" by code_simp
  have t: "tokens ''a b c d e f g h i j k l m n o p'' = None" by code_simp
  have nz: "CHR 0x00 \<notin> set ''a b c d e f g h i j k l m n o p''" by simp
  have c: "console boot_state = []" by (simp add: boot_state_def)
  from runcmd_split [OF nz, of None "synthetic_machine 0x1000 two_frames" boot_state] l t c
  show ?thesis by (simp add: MAXARGS_def)
qed

text \<open>
  C6, amended: on a line of \<open>MAXARGS\<close> = 16 tokens or more the parsing loop gives
  up, prints the message with the limit 16 and returns 0 with nothing else changed,
  so that no handler runs; on a line of at most \<open>MAXARGS - 1\<close> = 15 tokens it
  completes and the tokens are dispatched.
\<close>

theorem too_many_arguments_from_sixteen:
  "CHR 0x00 \<notin> set line \<Longrightarrow>
     MAXARGS = 16
   \<and> (MAXARGS \<le> length (split_ws line) \<longrightarrow>
        tokens line = None
        \<and> runcmd line tf m st
            = Some (Inr (0, st\<lparr>console := console st
                 @ [Cprintf ''Too many arguments (max %d)\<newline>'' [AInt 16]]\<rparr>)))
   \<and> (length (split_ws line) < MAXARGS \<longrightarrow>
        tokens line = Some (split_ws line)
        \<and> runcmd line tf m st
            = dispatch (int (length (split_ws line))) (split_ws line) tf m st)"
  by (simp add: tokens_split runcmd_split) (simp add: MAXARGS_def)

text \<open>C6, amended, on lines of sixteen and of fifteen tokens.\<close>

theorem too_many_arguments_from_sixteen_witness:
  "CHR 0x00 \<notin> set ''a b c d e f g h i j k l m n o p''
   \<and> MAXARGS \<le> length (split_ws ''a b c d e f g h i j k l m n o p'')
   \<and> tokens ''a b c d e f g h i j k l m n o p'' = None
   \<and> CHR 0x00 \<notin> set ''a b c d e f g h i j k l m n o''
   \<and> length (split_ws ''a b c d e f g h i j k l m n o'') < MAXARGS
   \<and> tokens ''a b c d e f g h i j k l m n o''
       = Some [''a'', ''b'', ''c'', ''d'', ''e'', ''f'', ''g'', ''h'', ''i'', ''j'', ''k'', ''l'',
               ''m'', ''n'', ''o'']"
proof -
  have nz1: "CHR 0x00 \<notin> set ''a b c d e f g h i j k l m n o p''" by simp
  have nz2: "CHR 0x00 \<notin> set ''a b c d e f g h i j k l m n o''" by simp
  have s1: "split_ws ''a b c d e f g h i j k l m n o p''
      = [''a'', ''b'', ''c'', ''d'', ''e'', ''f'', ''g'', ''h'', ''i'', ''j'', ''k'', ''l'',
         ''m'', ''n'', ''o'', ''p'']"
    by code_simp
  have s2: "split_ws ''a b c d e f g h i j k l m n o''
      = [''a'', ''b'', ''c'', ''d'', ''e'', ''f'', ''g'', ''h'', ''i'', ''j'', ''k'', ''l'',
         ''m'', ''n'', ''o'']"
    by code_simp
  have l1: "MAXARGS \<le> length (split_ws ''a b c d e f g h i j k l m n o p'')"
    by (simp only: s1) (simp add: MAXARGS_def)
  have l2: "length (split_ws ''a b c d e f g h i j k l m n o'') < MAXARGS"
    by (simp only: s2) (simp add: MAXARGS_def)
  from too_many_arguments_from_sixteen [OF nz1, of None "synthetic_machine 0x1000 two_frames" boot_state] l1
  have t1: "tokens ''a b c d e f g h i j k l m n o p'' = None" by blast
  from too_many_arguments_from_sixteen [OF nz2, of None "synthetic_machine 0x1000 two_frames" boot_state] l2
  have t2: "tokens ''a b c d e f g h i j k l m n o'' = Some (split_ws ''a b c d e f g h i j k l m n o'')"
    by blast
  from nz1 nz2 l1 l2 t1 t2 s2 show ?thesis by (simp only:) simp
qed

lemma split_ws_first:
  assumes w: "\<forall>c \<in> set w. strchr WHITESPACE c"
    and t: "t \<noteq> []" "\<forall>c \<in> set t. \<not> strchr WHITESPACE c"
    and r: "r = [] \<or> strchr WHITESPACE (hd r)"
  shows "split_ws (w @ t @ r) = t # split_ws r"
proof -
  obtain x xs where tx: "t = x # xs" using t(1) by (cases t) simp_all
  with t(2) have x: "\<not> strchr WHITESPACE x" by simp
  have d: "dropWhile (strchr WHITESPACE) (w @ t @ r) = t @ r"
    using w by (simp add: dropWhile_append2 tx x)
  have tr: "takeWhile (\<lambda>c. \<not> strchr WHITESPACE c) r = []"
    and dr: "dropWhile (\<lambda>c. \<not> strchr WHITESPACE c) r = r"
    using r by (cases r; simp)+
  have tk: "takeWhile (\<lambda>c. \<not> strchr WHITESPACE c) (t @ r) = t"
    using t(2) by (simp add: takeWhile_append2 tr)
  have dk: "dropWhile (\<lambda>c. \<not> strchr WHITESPACE c) (t @ r) = r"
    using t(2) by (simp add: dropWhile_append2 dr)
  show ?thesis
    by (subst split_ws.simps) (simp only: d Let_def tk dk, simp add: t(1))
qed

lemma split_ws_all_words:
  "\<forall>u \<in> set (split_ws line). u \<noteq> [] \<and> (\<forall>c \<in> set u. \<not> strchr WHITESPACE c)"
  using split_ws_words [of _ line] by blast

text \<open>
  C7: the whitespace set is space, tab, carriage return and newline; the line
  \<open>"  free_page   0x1000 "\<close> gives exactly the tokens \<open>free_page\<close> and
  \<open>0x1000\<close>; an empty or all-whitespace line gives no token; and every line of
  fewer than \<open>MAXARGS\<close> tokens is tokenized into its split at whitespace. The
  split is fixed by its two equations: nothing for whitespace only, and otherwise
  the first maximal run without whitespace followed by the split of what is behind
  it. Each token is non-empty and free of whitespace, and together the tokens are
  the line without its whitespace.
\<close>
theorem tokenization_splits_on_whitespace:
  "set WHITESPACE = {CHR 0x20, CHR 0x09, CHR 0x0D, CHR 0x0A}
   \<and> tokens ''  free_page   0x1000 '' = Some [''free_page'', ''0x1000'']
   \<and> tokens [] = Some []
   \<and> ((\<forall>c \<in> set line. strchr WHITESPACE c) \<longrightarrow> tokens line = Some [])
   \<and> (CHR 0x00 \<notin> set line \<and> length (split_ws line) < MAXARGS \<longrightarrow>
        tokens line = Some (split_ws line))
   \<and> (\<forall>u \<in> set (split_ws line). u \<noteq> [] \<and> (\<forall>c \<in> set u. \<not> strchr WHITESPACE c))
   \<and> concat (split_ws line) = filter (\<lambda>c. \<not> strchr WHITESPACE c) line
   \<and> ((\<forall>c \<in> set w. strchr WHITESPACE c) \<longrightarrow> split_ws w = [])
   \<and> ((\<forall>c \<in> set w. strchr WHITESPACE c) \<and> t \<noteq> [] \<and> (\<forall>c \<in> set t. \<not> strchr WHITESPACE c)
        \<and> (r = [] \<or> strchr WHITESPACE (hd r)) \<longrightarrow>
        split_ws (w @ t @ r) = t # split_ws r)
   \<and> (CHR 0x00 \<notin> set line \<and> tokens line = Some ts \<longrightarrow>
        ts = split_ws line
        \<and> (\<forall>u \<in> set ts. u \<noteq> [] \<and> (\<forall>c \<in> set u. \<not> strchr WHITESPACE c))
        \<and> concat ts = filter (\<lambda>c. \<not> strchr WHITESPACE c) line)"
proof (intro conjI impI)
  show "set WHITESPACE = {CHR 0x20, CHR 0x09, CHR 0x0D, CHR 0x0A}"
    by (auto simp: WHITESPACE_def)
  show "tokens ''  free_page   0x1000 '' = Some [''free_page'', ''0x1000'']"
    by code_simp
  show "tokens [] = Some []"
    using tokens_blank [of "[]"] by simp
  show "tokens line = Some []" if "\<forall>c \<in> set line. strchr WHITESPACE c"
    using that by (rule tokens_blank)
  show "tokens line = Some (split_ws line)"
    if "CHR 0x00 \<notin> set line \<and> length (split_ws line) < MAXARGS"
    using that tokens_split [of line] by simp
  show "\<forall>u \<in> set (split_ws line). u \<noteq> [] \<and> (\<forall>c \<in> set u. \<not> strchr WHITESPACE c)"
    by (rule split_ws_all_words)
  show "concat (split_ws line) = filter (\<lambda>c. \<not> strchr WHITESPACE c) line"
    by (rule concat_split_ws)
  show "split_ws w = []" if "\<forall>c \<in> set w. strchr WHITESPACE c"
    using that by (rule split_ws_Nil)
  show "split_ws (w @ t @ r) = t # split_ws r"
    if "(\<forall>c \<in> set w. strchr WHITESPACE c) \<and> t \<noteq> [] \<and> (\<forall>c \<in> set t. \<not> strchr WHITESPACE c)
        \<and> (r = [] \<or> strchr WHITESPACE (hd r))"
    using that split_ws_first [of w t r] by blast
  assume a: "CHR 0x00 \<notin> set line \<and> tokens line = Some ts"
  then have ts: "ts = split_ws line"
    using tokens_split [of line] by (auto split: if_splits)
  then show "ts = split_ws line" .
  show "\<forall>u \<in> set ts. u \<noteq> [] \<and> (\<forall>c \<in> set u. \<not> strchr WHITESPACE c)"
    unfolding ts by (rule split_ws_all_words)
  show "concat ts = filter (\<lambda>c. \<not> strchr WHITESPACE c) line"
    by (simp only: ts concat_split_ws)
qed

text \<open>C7 on a line of blanks and on a line of four tokens parted by all four whitespace characters.\<close>

theorem tokenization_splits_on_whitespace_witness:
  "strchr WHITESPACE (CHR 0x20) \<and> strchr WHITESPACE (CHR 0x09) \<and> strchr WHITESPACE (CHR 0x0A)
   \<and> tokens [CHR 0x20, CHR 0x09, CHR 0x0A] = Some []
   \<and> CHR 0x00 \<notin> set [CHR 0x09, CHR ''f'', CHR ''r'', CHR ''e'', CHR ''e'', CHR 0x0D, CHR 0x0A,
        CHR ''0'', CHR ''x'', CHR ''1'', CHR '' '', CHR '' '', CHR ''a'', CHR 0x09, CHR ''b'', CHR ''c'', CHR 0x0A]
   \<and> length (split_ws [CHR 0x09, CHR ''f'', CHR ''r'', CHR ''e'', CHR ''e'', CHR 0x0D, CHR 0x0A,
        CHR ''0'', CHR ''x'', CHR ''1'', CHR '' '', CHR '' '', CHR ''a'', CHR 0x09, CHR ''b'', CHR ''c'', CHR 0x0A])
       < MAXARGS
   \<and> tokens [CHR 0x09, CHR ''f'', CHR ''r'', CHR ''e'', CHR ''e'', CHR 0x0D, CHR 0x0A,
        CHR ''0'', CHR ''x'', CHR ''1'', CHR '' '', CHR '' '', CHR ''a'', CHR 0x09, CHR ''b'', CHR ''c'', CHR 0x0A]
       = Some [''free'', ''0x1'', ''a'', ''bc'']
   \<and> concat [''free'', ''0x1'', ''a'', ''bc'']
       = filter (\<lambda>c. \<not> strchr WHITESPACE c) [CHR 0x09, CHR ''f'', CHR ''r'', CHR ''e'', CHR ''e'', CHR 0x0D, CHR 0x0A,
        CHR ''0'', CHR ''x'', CHR ''1'', CHR '' '', CHR '' '', CHR ''a'', CHR 0x09, CHR ''b'', CHR ''c'', CHR 0x0A]"
proof -
  define L where "L = [CHR 0x09, CHR ''f'', CHR ''r'', CHR ''e'', CHR ''e'', CHR 0x0D, CHR 0x0A,
        CHR ''0'', CHR ''x'', CHR ''1'', CHR '' '', CHR '' '', CHR ''a'', CHR 0x09, CHR ''b'', CHR ''c'', CHR 0x0A]"
  have ws: "\<forall>c \<in> set [CHR 0x20, CHR 0x09, CHR 0x0A]. strchr WHITESPACE c"
    by (simp add: strchr_def WHITESPACE_def)
  have nz: "CHR 0x00 \<notin> set L" by (simp add: L_def)
  have s: "split_ws L = [''free'', ''0x1'', ''a'', ''bc'']" unfolding L_def by code_simp
  have l: "length (split_ws L) < MAXARGS" by (simp add: s MAXARGS_def)
  note w1 = tokenization_splits_on_whitespace [of "[CHR 0x20, CHR 0x09, CHR 0x0A]"]
  note w2 = tokenization_splits_on_whitespace [of L]
  from w1 ws have b: "tokens [CHR 0x20, CHR 0x09, CHR 0x0A] = Some []" by blast
  from w2 nz l have t: "tokens L = Some (split_ws L)"
    and c: "concat (split_ws L) = filter (\<lambda>c. \<not> strchr WHITESPACE c) L"
    by blast+
  from s ws b nz l t c show ?thesis
    unfolding L_def by (simp add: strchr_def WHITESPACE_def MAXARGS_def)
qed

section \<open>The page commands\<close>

lemma digit_of_zero: "digit_of CHR ''0'' = Some 0"
  by (simp add: digit_of_def)

lemma strtol_non_numeric: "non_numeric a \<Longrightarrow> strtol a 0 = 0"
proof (cases a)
  case Nil
  then show ?thesis by (simp add: strtol_def)
next
  case (Cons x xs)
  assume "non_numeric a"
  with Cons have x: "x \<noteq> CHR '' ''" "x \<noteq> CHR 0x09" "x \<noteq> CHR ''+''" "x \<noteq> CHR ''-''"
    and d: "case digit_of x of None \<Rightarrow> True | Some d \<Rightarrow> 10 \<le> d"
    by (simp_all add: non_numeric_def)
  from d have z: "x \<noteq> CHR ''0''" by (auto simp: digit_of_zero)
  from d have "strtol_digits 10 0 (x # xs) = 0"
    by (simp split: option.splits)
  with x z Cons show ?thesis by (simp add: strtol_def)
qed

lemma mon_page_status_resolved:
  "pa2page st (word_of_int (strtol a 0)) = Some pp \<Longrightarrow>
   mon_page_status 2 [c, a] tf m st
     = Some (Inr (0, st\<lparr>console := console st
          @ [Cprintf (if 0 < pp_ref (pages st ! pp) then ''    Allocated\<newline>'' else ''    free\<newline>'') []]\<rparr>))"
  by (simp add: mon_page_status_def ret_def cprintf_def)

lemma mon_free_page_one:
  "pa2page st (word_of_int (strtol a 0)) = Some pp \<Longrightarrow> pp_ref (pages st ! pp) = 1 \<Longrightarrow>
   mon_free_page 2 [c, a] tf m st
     = Some (Inr (0, st\<lparr>pages := (pages st)[pp := (pages st ! pp)\<lparr>pp_ref := 0\<rparr>],
                         page_free_list := pp # page_free_list st,
                         console := console st @ [Cprintf ''    Page freed successfully!\<newline>'' []]\<rparr>))"
  by (simp add: mon_free_page_def page_decref_def pa2page_def ret_def cprintf_def Let_def
      split: if_splits)

lemma mon_free_page_other:
  "pa2page st (word_of_int (strtol a 0)) = Some pp \<Longrightarrow> pp_ref (pages st ! pp) \<noteq> 1 \<Longrightarrow>
   mon_free_page 2 [c, a] tf m st
     = Some (Inr (0, st\<lparr>console := console st @ [Cprintf ''   failed\<newline>'' []]\<rparr>))"
  by (simp add: mon_free_page_def ret_def cprintf_def)


lemma mon_page_status_any:
  "mon_page_status 2 [c, a] tf m st
     = (case pa2page st (word_of_int (strtol a 0)) of
          None \<Rightarrow> Some (Inl (Panic ''pa2page called with invalid pa''))
        | Some pp \<Rightarrow>
            Some (Inr (0, st\<lparr>console := console st
              @ [Cprintf (if 0 < pp_ref (pages st ! pp) then ''    Allocated\<newline>''
                          else ''    free\<newline>'') []]\<rparr>)))"
  by (simp add: mon_page_status_def ret_def cprintf_def split: option.splits)

lemma mon_free_page_any:
  "mon_free_page 2 [c, a] tf m st
     = (case pa2page st (word_of_int (strtol a 0)) of
          None \<Rightarrow> Some (Inl (Panic ''pa2page called with invalid pa''))
        | Some pp \<Rightarrow>
            if pp_ref (pages st ! pp) = 1
            then Some (Inr (0, st\<lparr>pages := (pages st)[pp := (pages st ! pp)\<lparr>pp_ref := 0\<rparr>],
                         page_free_list := pp # page_free_list st,
                         console := console st @ [Cprintf ''    Page freed successfully!\<newline>'' []]\<rparr>))
            else Some (Inr (0, st\<lparr>console := console st @ [Cprintf ''   failed\<newline>'' []]\<rparr>)))"
  by (auto simp: mon_free_page_one mon_free_page_other split: option.splits)
   (simp add: mon_free_page_def)

lemma pa2page_zero: "pa2page st 0 = (if pages st = [] then None else Some 0)"
  by (simp add: pa2page_def)

text \<open>
  C4: when the one address argument of \<open>free_page\<close> resolves to a page descriptor,
  a reference count of exactly one is decremented to zero and success is reported;
  with any other count failure is reported and the descriptors and the free list
  are as before the call. The handler returns 0 in both cases.
\<close>

theorem free_page_only_sole_reference:
  "pa2page st (word_of_int (strtol a 0)) = Some pp \<Longrightarrow>
     (pp_ref (pages st ! pp) = 1 \<longrightarrow>
        (\<exists>st1. mon_free_page 2 [c, a] tf m st = Some (Inr (0, st1))
           \<and> pp_ref (pages st1 ! pp) = 0
           \<and> console st1 = console st @ [Cprintf ''    Page freed successfully!\<newline>'' []]))
   \<and> (pp_ref (pages st ! pp) \<noteq> 1 \<longrightarrow>
        (\<exists>st1. mon_free_page 2 [c, a] tf m st = Some (Inr (0, st1))
           \<and> pages st1 = pages st \<and> page_free_list st1 = page_free_list st
           \<and> console st1 = console st @ [Cprintf ''   failed\<newline>'' []]))"
proof (intro conjI impI)
  assume r: "pa2page st (word_of_int (strtol a 0)) = Some pp"
  then have lt: "pp < length (pages st)"
    by (auto simp: pa2page_def split: if_splits)
  {
    assume one: "pp_ref (pages st ! pp) = 1"
    show "\<exists>st1. mon_free_page 2 [c, a] tf m st = Some (Inr (0, st1))
           \<and> pp_ref (pages st1 ! pp) = 0
           \<and> console st1 = console st @ [Cprintf ''    Page freed successfully!\<newline>'' []]"
      using mon_free_page_one [OF r one, of c tf m] lt by simp
  }
  {
    assume other: "pp_ref (pages st ! pp) \<noteq> 1"
    show "\<exists>st1. mon_free_page 2 [c, a] tf m st = Some (Inr (0, st1))
           \<and> pages st1 = pages st \<and> page_free_list st1 = page_free_list st
           \<and> console st1 = console st @ [Cprintf ''   failed\<newline>'' []]"
      using mon_free_page_other [OF r other, of c tf m] by simp
  }
qed

lemma boot_pa2page_0: "pa2page boot_state (word_of_int (strtol ''0x0'' 0)) = Some 0"
  by (simp add: strtol_def pa2page_def boot_state_def digit_of_def)

lemma boot_pa2page_2: "pa2page boot_state (word_of_int (strtol ''0x2000'' 0)) = Some 2"
  by (simp add: strtol_def pa2page_def boot_state_def digit_of_def drop_bit_eq_div)

text \<open>C4 on page 0 (one reference) and page 2 (two references) of the synthetic state.\<close>

theorem free_page_only_sole_reference_witness:
  "pa2page boot_state (word_of_int (strtol ''0x0'' 0)) = Some 0
   \<and> pp_ref (pages boot_state ! 0) = 1
   \<and> map_option (map_sum id (pages \<circ> snd))
        (mon_free_page 2 [''free_page'', ''0x0''] None (synthetic_machine 0x1000 two_frames) boot_state)
      = Some (Inr [\<lparr>pp_ref = 0\<rparr>, \<lparr>pp_ref = 0\<rparr>, \<lparr>pp_ref = 2\<rparr>, \<lparr>pp_ref = 0\<rparr>])
   \<and> pa2page boot_state (word_of_int (strtol ''0x2000'' 0)) = Some 2
   \<and> pp_ref (pages boot_state ! 2) \<noteq> 1
   \<and> mon_free_page 2 [''free_page'', ''0x2000''] None (synthetic_machine 0x1000 two_frames) boot_state
      = Some (Inr (0, boot_state\<lparr>console := [Cprintf ''   failed\<newline>'' []]\<rparr>))"
proof -
  have one: "pp_ref (pages boot_state ! 0) = 1" and two: "pp_ref (pages boot_state ! 2) \<noteq> 1"
    by (simp_all add: boot_state_def)
  have c: "console boot_state = []" by (simp add: boot_state_def)
  from free_page_only_sole_reference [OF boot_pa2page_2, of "''free_page''" None
      "synthetic_machine 0x1000 two_frames"] two
  obtain st2 where "mon_free_page 2 [''free_page'', ''0x2000''] None
        (synthetic_machine 0x1000 two_frames) boot_state = Some (Inr (0, st2))"
    by blast
  with mon_free_page_other [OF boot_pa2page_2 two, of "''free_page''" None
      "synthetic_machine 0x1000 two_frames"] c
  have f: "mon_free_page 2 [''free_page'', ''0x2000''] None (synthetic_machine 0x1000 two_frames) boot_state
      = Some (Inr (0, boot_state\<lparr>console := [Cprintf ''   failed\<newline>'' []]\<rparr>))"
    by simp
  from free_page_only_sole_reference [OF boot_pa2page_0, of "''free_page''" None
      "synthetic_machine 0x1000 two_frames"] one
  obtain st1 where r: "mon_free_page 2 [''free_page'', ''0x0''] None
        (synthetic_machine 0x1000 two_frames) boot_state = Some (Inr (0, st1))"
    and z: "pp_ref (pages st1 ! 0) = 0"
    by blast
  have "mon_free_page 2 [''free_page'', ''0x0''] None
        (synthetic_machine 0x1000 two_frames) boot_state
        = Some (Inr (0, boot_state\<lparr>pages := (pages boot_state)[0 := (pages boot_state ! 0)\<lparr>pp_ref := 0\<rparr>],
                         page_free_list := 0 # page_free_list boot_state,
                         console := console boot_state @ [Cprintf ''    Page freed successfully!\<newline>'' []]\<rparr>))"
    by (rule mon_free_page_one [OF boot_pa2page_0 one])
  with r have "pages st1 = [\<lparr>pp_ref = 0\<rparr>, \<lparr>pp_ref = 0\<rparr>, \<lparr>pp_ref = 2\<rparr>, \<lparr>pp_ref = 0\<rparr>]"
    by (simp add: boot_state_def)
  with r f one two boot_pa2page_0 boot_pa2page_2 show ?thesis by simp
qed

lemma pa2page_None_iff:
  "pa2page st pa = None \<longleftrightarrow> length (pages st) \<le> unat (drop_bit 12 pa)"
  by (simp add: pa2page_def)

lemma pa2page_Some_iff:
  "pa2page st pa = Some pp \<longleftrightarrow> pp = unat (drop_bit 12 pa) \<and> pp < length (pages st)"
  by (auto simp: pa2page_def)

lemma boot_pa2page_1: "pa2page boot_state (word_of_int (strtol ''0x1000'' 0)) = Some 1"
  by (simp add: strtol_def pa2page_def boot_state_def digit_of_def drop_bit_eq_div)

lemma boot_pa2page_4: "pa2page boot_state (word_of_int (strtol ''0x4000'' 0)) = None"
  by (simp add: strtol_def pa2page_def boot_state_def digit_of_def drop_bit_eq_div)

lemma boot_pa2page_5: "pa2page boot_state (word_of_int (strtol ''20480'' 0)) = None"
  by (simp add: strtol_def pa2page_def boot_state_def digit_of_def drop_bit_eq_div)

lemma boot_pa2page_junk: "pa2page boot_state (word_of_int (strtol ''0x2000zz'' 0)) = Some 2"
  by (simp add: strtol_def pa2page_def boot_state_def digit_of_def drop_bit_eq_div)

lemma strtol_junk: "strtol ''0x2000zz'' 0 = 8192"
  by (simp add: strtol_def digit_of_def)

text \<open>
  C5 as stated fails on "every invocation": the address 0x4000 lies beyond the four
  pages of the synthetic state, and the handler reports neither "Allocated" nor
  "free" but ends in the panic of the address lookup.
\<close>
theorem page_status_unresolved_counterexample:
  "pa2page boot_state (word_of_int (strtol ''0x4000'' 0)) = None
   \<and> mon_page_status 2 [''page_status'', ''0x4000''] None (synthetic_machine 0x1000 two_frames)
        boot_state
      = Some (Inl (Panic ''pa2page called with invalid pa''))"
  by (simp add: boot_pa2page_4 mon_page_status_any)

text \<open>
  C5, amended: when the one address argument of \<open>page_status\<close> resolves to a page
  descriptor (its page number lies within the table), the handler prints
  "Allocated" if the reference count is greater than zero and "free" otherwise,
  returns 0, and leaves every part of the state but the console as it was; when
  the address resolves to no descriptor the handler reports nothing and the
  invocation ends in a panic.
\<close>

theorem page_status_reads_only:
  "(pa2page st (word_of_int (strtol a 0)) = Some pp \<longrightarrow>
      mon_page_status 2 [c, a] tf m st
        = Some (Inr (0, st\<lparr>console := console st
            @ [Cprintf (if 0 < pp_ref (pages st ! pp) then ''    Allocated\<newline>''
                        else ''    free\<newline>'') []]\<rparr>)))
   \<and> (pa2page st (word_of_int (strtol a 0)) = None \<longrightarrow>
      mon_page_status 2 [c, a] tf m st = Some (Inl (Panic ''pa2page called with invalid pa'')))
   \<and> (pa2page st pa = Some pp \<longleftrightarrow> pp = unat (drop_bit 12 pa) \<and> pp < length (pages st))
   \<and> (pa2page st pa = None \<longleftrightarrow> length (pages st) \<le> unat (drop_bit 12 pa))"
proof (intro conjI impI)
  show "mon_page_status 2 [c, a] tf m st
        = Some (Inr (0, st\<lparr>console := console st
            @ [Cprintf (if 0 < pp_ref (pages st ! pp) then ''    Allocated\<newline>''
                        else ''    free\<newline>'') []]\<rparr>))"
    if "pa2page st (word_of_int (strtol a 0)) = Some pp"
    using that by (rule mon_page_status_resolved)
  show "mon_page_status 2 [c, a] tf m st = Some (Inl (Panic ''pa2page called with invalid pa''))"
    if "pa2page st (word_of_int (strtol a 0)) = None"
    using that by (simp add: mon_page_status_any)
  show "pa2page st pa = Some pp \<longleftrightarrow> pp = unat (drop_bit 12 pa) \<and> pp < length (pages st)"
    by (rule pa2page_Some_iff)
  show "pa2page st pa = None \<longleftrightarrow> length (pages st) \<le> unat (drop_bit 12 pa)"
    by (rule pa2page_None_iff)
qed

text \<open>C5, amended, on pages 2 and 1 of the synthetic state and on an address beyond it.\<close>

theorem page_status_reads_only_witness:
  "pa2page boot_state (word_of_int (strtol ''0x2000'' 0)) = Some 2
   \<and> mon_page_status 2 [''page_status'', ''0x2000''] None (synthetic_machine 0x1000 two_frames)
        boot_state
      = Some (Inr (0, boot_state\<lparr>console := [Cprintf ''    Allocated\<newline>'' []]\<rparr>))
   \<and> pa2page boot_state (word_of_int (strtol ''0x1000'' 0)) = Some 1
   \<and> mon_page_status 2 [''page_status'', ''0x1000''] None (synthetic_machine 0x1000 two_frames)
        boot_state
      = Some (Inr (0, boot_state\<lparr>console := [Cprintf ''    free\<newline>'' []]\<rparr>))
   \<and> pa2page boot_state (word_of_int (strtol ''20480'' 0)) = None
   \<and> mon_page_status 2 [''page_status'', ''20480''] None (synthetic_machine 0x1000 two_frames)
        boot_state
      = Some (Inl (Panic ''pa2page called with invalid pa''))"
proof -
  note t = page_status_reads_only [where st = boot_state and c = "''page_status''"
      and tf = None and m = "synthetic_machine 0x1000 two_frames"]
  have c0: "console boot_state = []" and p2: "pp_ref (pages boot_state ! 2) = 2"
    and p1: "pp_ref (pages boot_state ! Suc 0) = 0"
    by (simp_all add: boot_state_def)
  have a: "mon_page_status 2 [''page_status'', ''0x2000''] None (synthetic_machine 0x1000 two_frames)
        boot_state
      = Some (Inr (0, boot_state\<lparr>console := [Cprintf ''    Allocated\<newline>'' []]\<rparr>))"
    using t [where a = "''0x2000''" and pp = 2, THEN conjunct1, THEN mp, OF boot_pa2page_2]
    by (simp add: c0 p2)
  have f: "mon_page_status 2 [''page_status'', ''0x1000''] None (synthetic_machine 0x1000 two_frames)
        boot_state
      = Some (Inr (0, boot_state\<lparr>console := [Cprintf ''    free\<newline>'' []]\<rparr>))"
    using t [where a = "''0x1000''" and pp = 1, THEN conjunct1, THEN mp, OF boot_pa2page_1]
    by (simp add: c0 p1)
  have p: "mon_page_status 2 [''page_status'', ''20480''] None (synthetic_machine 0x1000 two_frames)
        boot_state
      = Some (Inl (Panic ''pa2page called with invalid pa''))"
    using t [where a = "''20480''", THEN conjunct2, THEN conjunct1, THEN mp, OF boot_pa2page_5] .
  from a f p boot_pa2page_2 boot_pa2page_1 boot_pa2page_5 show ?thesis by (simp only:)
qed

text \<open>
  C9 as stated fails: the argument \<open>zzz\<close> is converted to zero, and both handlers
  act on page 0 without a word about the argument.
\<close>
theorem malformed_address_counterexample:
  "strtol ''zzz'' 0 = 0
   \<and> mon_page_status 2 [''page_status'', ''zzz''] None (synthetic_machine 0x1000 two_frames)
        boot_state
      = Some (Inr (0, boot_state\<lparr>console := [Cprintf ''    Allocated\<newline>'' []]\<rparr>))
   \<and> mon_free_page 2 [''free_page'', ''zzz''] None (synthetic_machine 0x1000 two_frames)
        boot_state
      = Some (Inr (0, boot_state\<lparr>pages := [\<lparr>pp_ref = 0\<rparr>, \<lparr>pp_ref = 0\<rparr>, \<lparr>pp_ref = 2\<rparr>, \<lparr>pp_ref = 0\<rparr>],
           page_free_list := [0, 1, 3],
           console := [Cprintf ''    Page freed successfully!\<newline>'' []]\<rparr>))"
proof -
  have n: "non_numeric ''zzz''" by (simp add: non_numeric_def digit_of_def)
  have z: "strtol ''zzz'' 0 = 0" by (rule strtol_non_numeric [OF n])
  show ?thesis
    by (simp add: z mon_page_status_any mon_free_page_any pa2page_zero) (simp add: boot_state_def)
qed

text \<open>
  C9, amended: the handlers validate nothing and report no parse error, whatever
  the argument. Each acts on the address that the conversion gives for the
  argument: \<open>page_status\<close> prints one of its two status lines and \<open>free_page\<close>
  one of its two result lines for the page of that address, or the lookup of the
  address panics. An argument that is no numeral is converted to zero and handled
  as the address 0.
\<close>
theorem address_argument_never_validated:
  "mon_page_status 2 [c, a] tf m st
     = (case pa2page st (word_of_int (strtol a 0)) of
          None \<Rightarrow> Some (Inl (Panic ''pa2page called with invalid pa''))
        | Some pp \<Rightarrow>
            Some (Inr (0, st\<lparr>console := console st
              @ [Cprintf (if 0 < pp_ref (pages st ! pp) then ''    Allocated\<newline>''
                          else ''    free\<newline>'') []]\<rparr>)))
   \<and> mon_free_page 2 [c, a] tf m st
     = (case pa2page st (word_of_int (strtol a 0)) of
          None \<Rightarrow> Some (Inl (Panic ''pa2page called with invalid pa''))
        | Some pp \<Rightarrow>
            if pp_ref (pages st ! pp) = 1
            then Some (Inr (0, st\<lparr>pages := (pages st)[pp := (pages st ! pp)\<lparr>pp_ref := 0\<rparr>],
                         page_free_list := pp # page_free_list st,
                         console := console st @ [Cprintf ''    Page freed successfully!\<newline>'' []]\<rparr>))
            else Some (Inr (0, st\<lparr>console := console st @ [Cprintf ''   failed\<newline>'' []]\<rparr>)))
   \<and> (non_numeric a \<longrightarrow>
        strtol a 0 = 0
        \<and> mon_page_status 2 [c, a] tf m st
           = (if pages st = [] then Some (Inl (Panic ''pa2page called with invalid pa''))
              else Some (Inr (0, st\<lparr>console := console st
                   @ [Cprintf (if 0 < pp_ref (pages st ! 0) then ''    Allocated\<newline>''
                               else ''    free\<newline>'') []]\<rparr>)))
        \<and> mon_free_page 2 [c, a] tf m st
           = (if pages st = [] then Some (Inl (Panic ''pa2page called with invalid pa''))
              else if pp_ref (pages st ! 0) = 1
              then Some (Inr (0, st\<lparr>pages := (pages st)[0 := (pages st ! 0)\<lparr>pp_ref := 0\<rparr>],
                              page_free_list := 0 # page_free_list st,
                              console := console st @ [Cprintf ''    Page freed successfully!\<newline>'' []]\<rparr>))
              else Some (Inr (0, st\<lparr>console := console st @ [Cprintf ''   failed\<newline>'' []]\<rparr>))))"
proof (intro conjI impI)
  show "mon_page_status 2 [c, a] tf m st
     = (case pa2page st (word_of_int (strtol a 0)) of
          None \<Rightarrow> Some (Inl (Panic ''pa2page called with invalid pa''))
        | Some pp \<Rightarrow>
            Some (Inr (0, st\<lparr>console := console st
              @ [Cprintf (if 0 < pp_ref (pages st ! pp) then ''    Allocated\<newline>''
                          else ''    free\<newline>'') []]\<rparr>)))"
    by (rule mon_page_status_any)
  show "mon_free_page 2 [c, a] tf m st
     = (case pa2page st (word_of_int (strtol a 0)) of
          None \<Rightarrow> Some (Inl (Panic ''pa2page called with invalid pa''))
        | Some pp \<Rightarrow>
            if pp_ref (pages st ! pp) = 1
            then Some (Inr (0, st\<lparr>pages := (pages st)[pp := (pages st ! pp)\<lparr>pp_ref := 0\<rparr>],
                         page_free_list := pp # page_free_list st,
                         console := console st @ [Cprintf ''    Page freed successfully!\<newline>'' []]\<rparr>))
            else Some (Inr (0, st\<lparr>console := console st @ [Cprintf ''   failed\<newline>'' []]\<rparr>)))"
    by (rule mon_free_page_any)
  assume n: "non_numeric a"
  show "strtol a 0 = 0" by (rule strtol_non_numeric [OF n])
  show "mon_page_status 2 [c, a] tf m st
           = (if pages st = [] then Some (Inl (Panic ''pa2page called with invalid pa''))
              else Some (Inr (0, st\<lparr>console := console st
                   @ [Cprintf (if 0 < pp_ref (pages st ! 0) then ''    Allocated\<newline>''
                               else ''    free\<newline>'') []]\<rparr>)))"
    by (simp add: strtol_non_numeric [OF n] mon_page_status_any pa2page_zero)
  show "mon_free_page 2 [c, a] tf m st
           = (if pages st = [] then Some (Inl (Panic ''pa2page called with invalid pa''))
              else if pp_ref (pages st ! 0) = 1
              then Some (Inr (0, st\<lparr>pages := (pages st)[0 := (pages st ! 0)\<lparr>pp_ref := 0\<rparr>],
                              page_free_list := 0 # page_free_list st,
                              console := console st @ [Cprintf ''    Page freed successfully!\<newline>'' []]\<rparr>))
              else Some (Inr (0, st\<lparr>console := console st @ [Cprintf ''   failed\<newline>'' []]\<rparr>)))"
    by (simp add: strtol_non_numeric [OF n] mon_free_page_any pa2page_zero)
qed

text \<open>
  C9, amended, on the argument \<open>page?\<close>, used as address 0, and on the argument
  \<open>0x2000zz\<close>, used as address 0x2000.
\<close>

theorem address_argument_never_validated_witness:
  "non_numeric ''page?''
   \<and> mon_page_status 2 [''page_status'', ''page?''] None (synthetic_machine 0x1000 two_frames)
        boot_state
      = Some (Inr (0, boot_state\<lparr>console := [Cprintf ''    Allocated\<newline>'' []]\<rparr>))
   \<and> strtol ''0x2000zz'' 0 = 8192
   \<and> mon_page_status 2 [''page_status'', ''0x2000zz''] None (synthetic_machine 0x1000 two_frames)
        boot_state
      = Some (Inr (0, boot_state\<lparr>console := [Cprintf ''    Allocated\<newline>'' []]\<rparr>))
   \<and> mon_free_page 2 [''free_page'', ''0x2000zz''] None (synthetic_machine 0x1000 two_frames)
        boot_state
      = Some (Inr (0, boot_state\<lparr>console := [Cprintf ''   failed\<newline>'' []]\<rparr>))"
proof -
  note t = address_argument_never_validated [where st = boot_state
      and tf = None and m = "synthetic_machine 0x1000 two_frames"]
  have n: "non_numeric ''page?''" by (simp add: non_numeric_def digit_of_def)
  have c0: "console boot_state = []" and p2: "pp_ref (pages boot_state ! 2) = 2"
    and p0: "pp_ref (pages boot_state ! 0) = 1" and pne: "pages boot_state \<noteq> []"
    by (simp_all add: boot_state_def)
  have "mon_page_status 2 [''page_status'', ''page?''] None (synthetic_machine 0x1000 two_frames)
        boot_state
      = (if pages boot_state = [] then Some (Inl (Panic ''pa2page called with invalid pa''))
         else Some (Inr (0, boot_state\<lparr>console := console boot_state
              @ [Cprintf (if 0 < pp_ref (pages boot_state ! 0) then ''    Allocated\<newline>''
                          else ''    free\<newline>'') []]\<rparr>)))"
    using t [where a = "''page?''" and c = "''page_status''", THEN conjunct2, THEN conjunct2,
        THEN mp, OF n, THEN conjunct2, THEN conjunct1] .
  then have z: "mon_page_status 2 [''page_status'', ''page?''] None (synthetic_machine 0x1000 two_frames)
        boot_state
      = Some (Inr (0, boot_state\<lparr>console := [Cprintf ''    Allocated\<newline>'' []]\<rparr>))"
    by (simp add: c0 p0 pne)
  have "mon_page_status 2 [''page_status'', ''0x2000zz''] None (synthetic_machine 0x1000 two_frames)
        boot_state
      = (case pa2page boot_state (word_of_int (strtol ''0x2000zz'' 0)) of
          None \<Rightarrow> Some (Inl (Panic ''pa2page called with invalid pa''))
        | Some pp \<Rightarrow>
            Some (Inr (0, boot_state\<lparr>console := console boot_state
              @ [Cprintf (if 0 < pp_ref (pages boot_state ! pp) then ''    Allocated\<newline>''
                          else ''    free\<newline>'') []]\<rparr>)))"
    using t [where a = "''0x2000zz''" and c = "''page_status''", THEN conjunct1] .
  then have s: "mon_page_status 2 [''page_status'', ''0x2000zz''] None (synthetic_machine 0x1000 two_frames)
        boot_state
      = Some (Inr (0, boot_state\<lparr>console := [Cprintf ''    Allocated\<newline>'' []]\<rparr>))"
    by (simp only: boot_pa2page_junk option.case) (simp add: c0 p2)
  have "mon_free_page 2 [''free_page'', ''0x2000zz''] None (synthetic_machine 0x1000 two_frames)
        boot_state
     = (case pa2page boot_state (word_of_int (strtol ''0x2000zz'' 0)) of
          None \<Rightarrow> Some (Inl (Panic ''pa2page called with invalid pa''))
        | Some pp \<Rightarrow>
            if pp_ref (pages boot_state ! pp) = 1
            then Some (Inr (0, boot_state\<lparr>pages := (pages boot_state)[pp := (pages boot_state ! pp)\<lparr>pp_ref := 0\<rparr>],
                         page_free_list := pp # page_free_list boot_state,
                         console := console boot_state @ [Cprintf ''    Page freed successfully!\<newline>'' []]\<rparr>))
            else Some (Inr (0, boot_state\<lparr>console := console boot_state @ [Cprintf ''   failed\<newline>'' []]\<rparr>)))"
    using t [where a = "''0x2000zz''" and c = "''free_page''", THEN conjunct2, THEN conjunct1] .
  then have f: "mon_free_page 2 [''free_page'', ''0x2000zz''] None (synthetic_machine 0x1000 two_frames)
        boot_state
      = Some (Inr (0, boot_state\<lparr>console := [Cprintf ''   failed\<newline>'' []]\<rparr>))"
    by (simp only: boot_pa2page_junk option.case) (simp add: c0 p2)
  from n z s f strtol_junk show ?thesis by (simp only:)
qed

section \<open>Dispatch and the monitor loop\<close>

lemma lookup_find:
  "lookup cs argc argv tf m st
     = (case find (\<lambda>c. name c = argv ! 0) cs of
          Some c \<Rightarrow> call (func c) argc argv tf m st
        | None \<Rightarrow>
            Some (Inr (0, st\<lparr>console := console st
              @ [Cprintf (''Unknown command '' @ [CHR 0x27] @ ''%s'' @ [CHR 0x27] @ ''\<newline>'')
                   [AStr (Some (argv ! 0))]]\<rparr>)))"
  by (induction cs) (simp_all add: strcmp_eq_def ret_def cprintf_def)

lemma dispatch_by_name:
  "dispatch (int (length (a # as))) (a # as) tf m st
     = (if a = ''help'' then mon_help (int (length (a # as))) (a # as) tf m st
        else if a = ''kerninfo'' then mon_kerninfo (int (length (a # as))) (a # as) tf m st
        else if a = ''alloc_page'' then mon_alloc_page (int (length (a # as))) (a # as) tf m st
        else if a = ''page_status'' then mon_page_status (int (length (a # as))) (a # as) tf m st
        else if a = ''free_page'' then mon_free_page (int (length (a # as))) (a # as) tf m st
        else if a = ''backtrace'' then mon_backtrace (int (length (a # as))) (a # as) tf m st
        else Some (Inr (0, st\<lparr>console := console st
              @ [Cprintf (''Unknown command '' @ [CHR 0x27] @ ''%s'' @ [CHR 0x27] @ ''\<newline>'')
                   [AStr (Some a)]]\<rparr>)))"
  by (simp add: dispatch_def commands_def strcmp_eq_def ret_def cprintf_def)

lemma mon_help_lines:
  "mon_help argc argv tf m st
     = Some (Inr (0, st\<lparr>console := console st
         @ map (\<lambda>c. Cprintf ''%s - %s\<newline>'' [AStr (Some (name c)), AStr (Some (desc c))])
             commands\<rparr>))"
  by (simp add: mon_help_def ret_def NCOMMANDS_def commands_def cprintf_def upt_rec)

text \<open>
  C8: with no token nothing is looked up or printed and 0 is returned; with a first
  token, the entries are compared in table order by exact string equality and the
  first entry whose name equals the token is invoked with the argument count, the
  whole vector and the trap frame, its outcome being the outcome of the dispatch:
  \<open>help\<close> runs \<open>mon_help\<close>, \<open>kerninfo\<close> \<open>mon_kerninfo\<close>, \<open>alloc_page\<close>
  \<open>mon_alloc_page\<close>, \<open>page_status\<close> \<open>mon_page_status\<close>, \<open>free_page\<close>
  \<open>mon_free_page\<close> and \<open>backtrace\<close> \<open>mon_backtrace\<close>; for any other token
  exactly one "Unknown command" line is printed and 0 is returned.
\<close>
theorem dispatch_first_exact_match:
  "dispatch 0 argv tf m st = Some (Inr (0, st))
   \<and> (find (\<lambda>c. name c = a) commands = Some c \<longrightarrow>
        dispatch (int (length (a # as))) (a # as) tf m st
          = call (func c) (int (length (a # as))) (a # as) tf m st)
   \<and> (find (\<lambda>c. name c = a) commands = None \<longrightarrow>
        dispatch (int (length (a # as))) (a # as) tf m st
          = Some (Inr (0, st\<lparr>console := console st
              @ [Cprintf (''Unknown command '' @ [CHR 0x27] @ ''%s'' @ [CHR 0x27] @ ''\<newline>'')
                   [AStr (Some a)]]\<rparr>)))
   \<and> dispatch (int (length (a # as))) (a # as) tf m st
       = (if a = ''help'' then mon_help (int (length (a # as))) (a # as) tf m st
          else if a = ''kerninfo'' then mon_kerninfo (int (length (a # as))) (a # as) tf m st
          else if a = ''alloc_page'' then mon_alloc_page (int (length (a # as))) (a # as) tf m st
          else if a = ''page_status'' then mon_page_status (int (length (a # as))) (a # as) tf m st
          else if a = ''free_page'' then mon_free_page (int (length (a # as))) (a # as) tf m st
          else if a = ''backtrace'' then mon_backtrace (int (length (a # as))) (a # as) tf m st
          else Some (Inr (0, st\<lparr>console := console st
                @ [Cprintf (''Unknown command '' @ [CHR 0x27] @ ''%s'' @ [CHR 0x27] @ ''\<newline>'')
                     [AStr (Some a)]]\<rparr>)))
   \<and> map name commands
       = [''help'', ''kerninfo'', ''alloc_page'', ''page_status'', ''free_page'', ''backtrace'']
   \<and> map (call \<circ> func) commands
       = [mon_help, mon_kerninfo, mon_alloc_page, mon_page_status, mon_free_page, mon_backtrace]
   \<and> lookup cs argc (a # as) tf m st
       = (case find (\<lambda>c. name c = a) cs of
            Some c \<Rightarrow> call (func c) argc (a # as) tf m st
          | None \<Rightarrow>
              Some (Inr (0, st\<lparr>console := console st
                @ [Cprintf (''Unknown command '' @ [CHR 0x27] @ ''%s'' @ [CHR 0x27] @ ''\<newline>'')
                     [AStr (Some a)]]\<rparr>)))
   \<and> (parse_args buf 0 [] = Parsed b [] \<longrightarrow> runcmd buf tf m st = Some (Inr (0, st)))
   \<and> (parse_args buf 0 [] = Parsed b (i # js) \<longrightarrow>
        runcmd buf tf m st
          = dispatch (int (length (i # js))) (map (cstr b) (i # js)) tf m st)"
proof (intro conjI)
  show "dispatch 0 argv tf m st = Some (Inr (0, st))"
    by (simp add: dispatch_def ret_def)
  show "find (\<lambda>c. name c = a) commands = Some c \<longrightarrow>
        dispatch (int (length (a # as))) (a # as) tf m st
          = call (func c) (int (length (a # as))) (a # as) tf m st"
    by (simp add: dispatch_def lookup_find)
  show "find (\<lambda>c. name c = a) commands = None \<longrightarrow>
        dispatch (int (length (a # as))) (a # as) tf m st
          = Some (Inr (0, st\<lparr>console := console st
              @ [Cprintf (''Unknown command '' @ [CHR 0x27] @ ''%s'' @ [CHR 0x27] @ ''\<newline>'')
                   [AStr (Some a)]]\<rparr>))"
    by (simp add: dispatch_def lookup_find)
  show "dispatch (int (length (a # as))) (a # as) tf m st
       = (if a = ''help'' then mon_help (int (length (a # as))) (a # as) tf m st
          else if a = ''kerninfo'' then mon_kerninfo (int (length (a # as))) (a # as) tf m st
          else if a = ''alloc_page'' then mon_alloc_page (int (length (a # as))) (a # as) tf m st
          else if a = ''page_status'' then mon_page_status (int (length (a # as))) (a # as) tf m st
          else if a = ''free_page'' then mon_free_page (int (length (a # as))) (a # as) tf m st
          else if a = ''backtrace'' then mon_backtrace (int (length (a # as))) (a # as) tf m st
          else Some (Inr (0, st\<lparr>console := console st
                @ [Cprintf (''Unknown command '' @ [CHR 0x27] @ ''%s'' @ [CHR 0x27] @ ''\<newline>'')
                     [AStr (Some a)]]\<rparr>)))"
    by (rule dispatch_by_name)
  show "map name commands
       = [''help'', ''kerninfo'', ''alloc_page'', ''page_status'', ''free_page'', ''backtrace'']"
    by (simp add: commands_def)
  show "map (call \<circ> func) commands
       = [mon_help, mon_kerninfo, mon_alloc_page, mon_page_status, mon_free_page, mon_backtrace]"
    by (simp add: commands_def)
  show "lookup cs argc (a # as) tf m st
       = (case find (\<lambda>c. name c = a) cs of
            Some c \<Rightarrow> call (func c) argc (a # as) tf m st
          | None \<Rightarrow>
              Some (Inr (0, st\<lparr>console := console st
                @ [Cprintf (''Unknown command '' @ [CHR 0x27] @ ''%s'' @ [CHR 0x27] @ ''\<newline>'')
                     [AStr (Some a)]]\<rparr>)))"
    by (simp add: lookup_find split: option.splits)
  show "parse_args buf 0 [] = Parsed b [] \<longrightarrow> runcmd buf tf m st = Some (Inr (0, st))"
    by (simp add: runcmd_def dispatch_def ret_def)
  show "parse_args buf 0 [] = Parsed b (i # js) \<longrightarrow>
        runcmd buf tf m st
          = dispatch (int (length (i # js))) (map (cstr b) (i # js)) tf m st"
    by (simp add: runcmd_def)
qed

lemma find_HELP: "find (\<lambda>c. name c = ''HELP'') commands = None"
  by (simp add: commands_def)

lemma find_free_page: "find (\<lambda>c. name c = ''free_page'') commands = Some (commands ! 4)"
  by (simp add: commands_def)

text \<open>
  C8 on each of the six commands, on \<open>HELP\<close> (no entry: the match is
  case-sensitive) and on a blank line.
\<close>

theorem dispatch_first_exact_match_witness:
  "find (\<lambda>c. name c = ''free_page'') commands = Some (commands ! 4)
   \<and> dispatch 2 [''free_page'', ''0x2000''] None (synthetic_machine 0x1000 two_frames) boot_state
       = Some (Inr (0, boot_state\<lparr>console := [Cprintf ''   failed\<newline>'' []]\<rparr>))
   \<and> dispatch 2 [''page_status'', ''0x2000''] None (synthetic_machine 0x1000 two_frames) boot_state
       = Some (Inr (0, boot_state\<lparr>console := [Cprintf ''    Allocated\<newline>'' []]\<rparr>))
   \<and> dispatch 1 [''help''] None (synthetic_machine 0x1000 two_frames) boot_state
       = Some (Inr (0, boot_state\<lparr>console :=
           [Cprintf ''%s - %s\<newline>'' [AStr (Some ''help''), AStr (Some ''Display this list of commands'')],
            Cprintf ''%s - %s\<newline>'' [AStr (Some ''kerninfo''), AStr (Some ''Display information about the kernel'')],
            Cprintf ''%s - %s\<newline>'' [AStr (Some ''alloc_page''), AStr (Some ''Display the address of allocated page'')],
            Cprintf ''%s - %s\<newline>'' [AStr (Some ''page_status''), AStr (Some ''Display the status of the page'')],
            Cprintf ''%s - %s\<newline>'' [AStr (Some ''free_page''), AStr (Some ''Free the page, successfully or not'')],
            Cprintf ''%s - %s\<newline>'' [AStr (Some ''backtrace''), AStr (Some ''Backtrace the function call'')]]\<rparr>))
   \<and> dispatch 1 [''alloc_page''] None (synthetic_machine 0x1000 two_frames) boot_state
       = Some (Inr (0, boot_state\<lparr>console := [Cprintf ''    0x%x\<newline>'' [AHex 0x1000]],
            pages := [\<lparr>pp_ref = 1\<rparr>, \<lparr>pp_ref = 1\<rparr>, \<lparr>pp_ref = 2\<rparr>, \<lparr>pp_ref = 0\<rparr>],
            page_free_list := [3]\<rparr>))
   \<and> length (console_of (dispatch 1 [''kerninfo''] None (synthetic_machine 0x1000 two_frames) boot_state)) = 7
   \<and> length (console_of (dispatch 1 [''backtrace''] None (synthetic_machine 0x1000 two_frames) boot_state)) = 17
   \<and> find (\<lambda>c. name c = ''HELP'') commands = None
   \<and> dispatch 1 [''HELP''] None (synthetic_machine 0x1000 two_frames) boot_state
       = Some (Inr (0, boot_state\<lparr>console :=
           [Cprintf (''Unknown command '' @ [CHR 0x27] @ ''%s'' @ [CHR 0x27] @ ''\<newline>'')
              [AStr (Some ''HELP'')]]\<rparr>))
   \<and> parse_args '' '' 0 [] = Parsed [CHR 0x00] []
   \<and> runcmd '' '' None (synthetic_machine 0x1000 two_frames) boot_state = Some (Inr (0, boot_state))
   \<and> parse_args ''a'' 0 [] = Parsed ''a'' [0]
   \<and> runcmd ''a'' None (synthetic_machine 0x1000 two_frames) boot_state
       = dispatch 1 [''a''] None (synthetic_machine 0x1000 two_frames) boot_state"
proof -
  have p1: "parse_args '' '' 0 [] = Parsed [CHR 0x00] []"
    by (simp add: parse_args.simps gobble.simps peek_def strchr_def WHITESPACE_def)
  have p2: "parse_args ''a'' 0 [] = Parsed ''a'' (0 # [])"
    by (simp add: parse_args.simps gobble.simps scan_arg.simps peek_def strchr_def
        WHITESPACE_def MAXARGS_def)
  have c: "console boot_state = []" by (simp add: boot_state_def)
  note t = dispatch_first_exact_match [where tf = None
      and m = "synthetic_machine 0x1000 two_frames" and st = boot_state]
  have fp: "dispatch 2 [''free_page'', ''0x2000''] None (synthetic_machine 0x1000 two_frames) boot_state
       = Some (Inr (0, boot_state\<lparr>console := [Cprintf ''   failed\<newline>'' []]\<rparr>))"
    using t [where a = "''free_page''" and as = "[''0x2000'']"]
      mon_free_page_other [OF boot_pa2page_2, of "''free_page''" None
        "synthetic_machine 0x1000 two_frames"]
    by (simp add: c) (simp add: boot_state_def)
  have ps: "dispatch 2 [''page_status'', ''0x2000''] None (synthetic_machine 0x1000 two_frames) boot_state
       = Some (Inr (0, boot_state\<lparr>console := [Cprintf ''    Allocated\<newline>'' []]\<rparr>))"
    using t [where a = "''page_status''" and as = "[''0x2000'']"]
      mon_page_status_resolved [OF boot_pa2page_2, of "''page_status''" None
        "synthetic_machine 0x1000 two_frames"]
    by (simp add: c) (simp add: boot_state_def)
  have hp: "dispatch 1 [''help''] None (synthetic_machine 0x1000 two_frames) boot_state
       = Some (Inr (0, boot_state\<lparr>console :=
           [Cprintf ''%s - %s\<newline>'' [AStr (Some ''help''), AStr (Some ''Display this list of commands'')],
            Cprintf ''%s - %s\<newline>'' [AStr (Some ''kerninfo''), AStr (Some ''Display information about the kernel'')],
            Cprintf ''%s - %s\<newline>'' [AStr (Some ''alloc_page''), AStr (Some ''Display the address of allocated page'')],
            Cprintf ''%s - %s\<newline>'' [AStr (Some ''page_status''), AStr (Some ''Display the status of the page'')],
            Cprintf ''%s - %s\<newline>'' [AStr (Some ''free_page''), AStr (Some ''Free the page, successfully or not'')],
            Cprintf ''%s - %s\<newline>'' [AStr (Some ''backtrace''), AStr (Some ''Backtrace the function call'')]]\<rparr>))"
    using t [where a = "''help''" and as = "[]"]
    by (simp add: mon_help_lines c) (simp add: commands_def)
  have ap: "dispatch 1 [''alloc_page''] None (synthetic_machine 0x1000 two_frames) boot_state
       = Some (Inr (0, boot_state\<lparr>console := [Cprintf ''    0x%x\<newline>'' [AHex 0x1000]],
            pages := [\<lparr>pp_ref = 1\<rparr>, \<lparr>pp_ref = 1\<rparr>, \<lparr>pp_ref = 2\<rparr>, \<lparr>pp_ref = 0\<rparr>],
            page_free_list := [3]\<rparr>))"
    using t [where a = "''alloc_page''" and as = "[]"]
    by (simp add: mon_alloc_page_def page_alloc_def boot_state_def ret_def
        cprintf_def page2pa_def Let_def)
  have ki: "length (console_of (dispatch 1 [''kerninfo''] None (synthetic_machine 0x1000 two_frames) boot_state)) = 7"
    using t [where a = "''kerninfo''" and as = "[]"]
    by (simp add: mon_kerninfo_def Let_def ret_def cprintf_def console_of_def c)
  have ch: "frame_chain (synthetic_machine 0x1000 two_frames)
              (ebp (synthetic_machine 0x1000 two_frames) # [0x2000])"
    by (simp add: synthetic_machine_def two_frames_def stack_of_def)
  have bt: "length (console_of (dispatch 1 [''backtrace''] None (synthetic_machine 0x1000 two_frames) boot_state)) = 17"
    using t [where a = "''backtrace''" and as = "[]"]
      mon_backtrace_chain [OF ch, of 1 "[''backtrace'']" None boot_state]
    by (auto simp: console_of_def c)
  have un: "dispatch 1 [''HELP''] None (synthetic_machine 0x1000 two_frames) boot_state
       = Some (Inr (0, boot_state\<lparr>console :=
           [Cprintf (''Unknown command '' @ [CHR 0x27] @ ''%s'' @ [CHR 0x27] @ ''\<newline>'')
              [AStr (Some ''HELP'')]]\<rparr>))"
    using t [where a = "''HELP''" and as = "[]"] by (simp add: c)
  have r1: "runcmd '' '' None (synthetic_machine 0x1000 two_frames) boot_state = Some (Inr (0, boot_state))"
    using t [where buf = "'' ''" and b = "[CHR 0x00]"] p1 by simp
  have r2: "runcmd ''a'' None (synthetic_machine 0x1000 two_frames) boot_state
       = dispatch 1 [''a''] None (synthetic_machine 0x1000 two_frames) boot_state"
    using t [where buf = "''a''" and b = "''a''" and i = 0 and js = "[]"] p2
    by (simp add: cstr_def)
  from find_free_page find_HELP p1 p2 fp ps hp ap ki bt un r1 r2 show ?thesis
    by (simp only:)
qed

lemma call_returns_zero:
  "call h argc argv tf m st = Some (Inr (r, st1)) \<Longrightarrow> r = 0"
proof (cases h)
  case Mon_help
  assume "call h argc argv tf m st = Some (Inr (r, st1))"
  with Mon_help show ?thesis by (simp add: mon_help_def ret_def)
next
  case Mon_kerninfo
  assume "call h argc argv tf m st = Some (Inr (r, st1))"
  with Mon_kerninfo show ?thesis by (simp add: mon_kerninfo_def ret_def Let_def)
next
  case Mon_alloc_page
  assume "call h argc argv tf m st = Some (Inr (r, st1))"
  with Mon_alloc_page show ?thesis
    by (auto simp: mon_alloc_page_def ret_def Let_def split: option.splits)
next
  case Mon_page_status
  assume "call h argc argv tf m st = Some (Inr (r, st1))"
  with Mon_page_status show ?thesis
    by (auto simp: mon_page_status_def ret_def Let_def split: option.splits if_splits)
next
  case Mon_free_page
  assume "call h argc argv tf m st = Some (Inr (r, st1))"
  with Mon_free_page show ?thesis
    by (auto simp: mon_free_page_def ret_def Let_def split: option.splits if_splits sum.splits)
next
  case Mon_backtrace
  assume "call h argc argv tf m st = Some (Inr (r, st1))"
  with Mon_backtrace show ?thesis
    by (auto simp: mon_backtrace_def ret_def Let_def split: option.splits)
qed

lemma lookup_returns_zero:
  "lookup cs argc argv tf m st = Some (Inr (r, st1)) \<Longrightarrow> r = 0"
  by (induction cs) (auto simp: ret_def split: if_splits dest: call_returns_zero)

lemma runcmd_returns_zero:
  "runcmd buf tf m st = Some (Inr (r, st1)) \<Longrightarrow> r = 0"
  by (auto simp: runcmd_def dispatch_def ret_def split: parse_result.splits if_splits
      dest: lookup_returns_zero)

lemma monitor_loop_never_left: "monitor_loop ls tf m st \<noteq> Left st1"
proof (induction ls arbitrary: st)
  case Nil
  show ?case by simp
next
  case (Cons l ls)
  show ?case
  proof (cases l)
    case None
    with Cons show ?thesis by simp
  next
    case (Some buf)
    show ?thesis
    proof (cases "runcmd buf tf m st")
      case None
      with Some show ?thesis by simp
    next
      case outer: (Some x)
      show ?thesis
      proof (cases x)
        case (Inl e)
        with Some outer show ?thesis by simp
      next
        case (Inr y)
        obtain r s where y: "y = (r, s)" by (cases y)
        with Inr outer have "runcmd buf tf m st = Some (Inr (r, s))" by simp
        from runcmd_returns_zero [OF this] have "r = 0" .
        with Some outer Inr y Cons.IH [of s] show ?thesis by simp
      qed
    qed
  qed
qed

lemma early_handlers_total:
  "h \<in> {Mon_help, Mon_kerninfo, Mon_alloc_page} \<Longrightarrow>
   \<exists>st1. call h argc argv tf m st = Some (Inr (0, st1))"
  by (auto simp: mon_help_def mon_kerninfo_def mon_alloc_page_def ret_def Let_def
      split: option.splits)

lemma page_handlers_return_or_panic:
  "mon_page_status argc argv tf m st \<noteq> None \<and> mon_free_page argc argv tf m st \<noteq> None"
  by (auto simp: mon_page_status_def mon_free_page_def ret_def Let_def
      split: option.splits sum.splits)

text \<open>
  C10 as stated fails at "on every invocation": on two frames that point at each other
  the backtrace handler does not return at all.
\<close>

theorem backtrace_invocation_counterexample:
  "call Mon_backtrace 1 [''backtrace''] None (synthetic_machine 0x2000 two_cycle) boot_state = None"
proof -
  have "(mem (synthetic_machine 0x2000 two_cycle) ^^ n) 0x2000
          = (if even n then 0x2000 else 0x1000)" for n
    by (induction n) (simp_all add: synthetic_machine_def stack_of_def two_cycle_def)
  then have "\<forall>n. (mem (synthetic_machine 0x2000 two_cycle) ^^ Suc n) 0x2000 \<noteq> 0"
    by (simp del: funpow.simps)
  moreover have "ebp (synthetic_machine 0x2000 two_cycle) = 0x2000"
    by (simp add: synthetic_machine_def)
  ultimately show ?thesis
    by (simp only: call.simps mon_backtrace_None_iff) simp
qed

text \<open>
  C10, amended: every handler of the table that returns returns 0. \<open>help\<close>,
  \<open>kerninfo\<close> and \<open>alloc_page\<close> return 0 on every invocation; \<open>page_status\<close> and
  \<open>free_page\<close> return 0 or end in a panic; \<open>backtrace\<close> returns 0 unless its
  frame chain never reaches the zero sentinel, when it does not return. So
  \<open>runcmd\<close> never returns a negative value and the monitor loop is never left
  through its \<open>break\<close>.
\<close>

theorem builtin_commands_never_leave_monitor:
  "(\<forall>c \<in> set commands. \<forall>r st1.
       call (func c) argc argv tf m st = Some (Inr (r, st1)) \<longrightarrow> r = 0)
   \<and> (\<forall>h \<in> {Mon_help, Mon_kerninfo, Mon_alloc_page}.
         \<exists>st1. call h argc argv tf m st = Some (Inr (0, st1)))
   \<and> call Mon_page_status argc argv tf m st \<noteq> None
   \<and> call Mon_free_page argc argv tf m st \<noteq> None
   \<and> (call Mon_backtrace argc argv tf m st = None
        \<longleftrightarrow> (\<forall>n. (mem m ^^ Suc n) (ebp m) \<noteq> 0))
   \<and> (call Mon_backtrace argc argv tf m st = None
        \<or> (\<exists>st1. call Mon_backtrace argc argv tf m st = Some (Inr (0, st1))))
   \<and> (\<forall>r st1. runcmd buf tf m st = Some (Inr (r, st1)) \<longrightarrow> r = 0)
   \<and> (\<forall>st1. monitor ls tf m st \<noteq> Left st1)"
  using call_returns_zero runcmd_returns_zero early_handlers_total
    mon_backtrace_None_or_zero [of argc argv tf m st]
  by (simp add: monitor_def Let_def monitor_loop_never_left page_handlers_return_or_panic
      mon_backtrace_None_iff)

text \<open>C10, amended, on \<open>alloc_page\<close> and on a run of the monitor over five lines.\<close>

theorem builtin_commands_never_leave_monitor_witness:
  "commands ! 2 \<in> set commands
   \<and> call (func (commands ! 2)) 1 [''alloc_page''] None (synthetic_machine 0x1000 two_frames) boot_state
       = Some (Inr (0, boot_state\<lparr>console := [Cprintf ''    0x%x\<newline>'' [AHex 0x1000]],
            pages := [\<lparr>pp_ref = 1\<rparr>, \<lparr>pp_ref = 1\<rparr>, \<lparr>pp_ref = 2\<rparr>, \<lparr>pp_ref = 0\<rparr>],
            page_free_list := [3]\<rparr>))
   \<and> (\<forall>st1. monitor [Some ''help'', None, Some ''  '', Some ''alloc_page'', Some ''nope'']
          None (synthetic_machine 0x1000 two_frames) boot_state \<noteq> Left st1)"
proof -
  have a: "commands ! 2 \<in> set commands" by (simp add: commands_def)
  have b: "call (func (commands ! 2)) 1 [''alloc_page''] None (synthetic_machine 0x1000 two_frames) boot_state
       = Some (Inr (0, boot_state\<lparr>console := [Cprintf ''    0x%x\<newline>'' [AHex 0x1000]],
            pages := [\<lparr>pp_ref = 1\<rparr>, \<lparr>pp_ref = 1\<rparr>, \<lparr>pp_ref = 2\<rparr>, \<lparr>pp_ref = 0\<rparr>],
            page_free_list := [3]\<rparr>))"
    by (simp add: commands_def mon_alloc_page_def page_alloc_def boot_state_def ret_def
        cprintf_def page2pa_def Let_def)
  from builtin_commands_never_leave_monitor [of 1 "[''alloc_page'']" None
      "synthetic_machine 0x1000 two_frames" boot_state "''alloc_page''"
      "[Some ''help'', None, Some ''  '', Some ''alloc_page'', Some ''nope'']"] a b
  show ?thesis by blast
qed

end
